theory Spec2Isabelle
  imports Main "HOL-Library.Signed_Division"
begin

section \<open>Characters (the safe cctype helpers, C locale)\<close>

text \<open>
  \<^verbatim>\<open>tf_isspace\<close>, \<^verbatim>\<open>tf_isdigit\<close> and \<^verbatim>\<open>tf_tolower\<close> wrap the functions of
  \<^verbatim>\<open><cctype>\<close> on the byte value of the character. They are modelled in the default
  "C" locale: white space is the blank and the bytes 9 to 13, digits are the bytes 48 to 57,
  and only the 26 upper-case ASCII letters are changed by \<^verbatim>\<open>tolower\<close>.
\<close>

definition tf_isspace :: "char \<Rightarrow> bool" where
  "tf_isspace c = ((of_char c :: nat) = 32 \<or> (9 \<le> (of_char c :: nat) \<and> (of_char c :: nat) \<le> 13))"

definition tf_isdigit :: "char \<Rightarrow> bool" where
  "tf_isdigit c = (48 \<le> (of_char c :: nat) \<and> (of_char c :: nat) \<le> 57)"

definition tf_tolower :: "char \<Rightarrow> char" where
  "tf_tolower c = (if 65 \<le> (of_char c :: nat) \<and> (of_char c :: nat) \<le> 90
                   then char_of ((of_char c :: nat) + 32) else c)"

section \<open>StringSegment\<close>

text \<open>
  A \<^verbatim>\<open>StringSegment\<close> is a view into a character buffer. No operation writes through
  the view, so a segment is modelled by the characters it currently shows; the mutating
  operations return the narrowed view.
\<close>

type_synonym StringSegment = string

definition IsEmpty :: "StringSegment \<Rightarrow> bool" where
  "IsEmpty view = (view = [])"

definition Length :: "StringSegment \<Rightarrow> nat" where
  "Length view = length view"

definition CountChars :: "StringSegment \<Rightarrow> char \<Rightarrow> nat" where
  "CountChars view c = count_list view c"

text \<open>\<^verbatim>\<open>ReadLeft\<close> and \<^verbatim>\<open>ReadRight\<close> return the NUL character on an empty view.\<close>

definition ReadLeft :: "StringSegment \<Rightarrow> char \<times> StringSegment" where
  "ReadLeft view = (if view = [] then (CHR 0x00, view) else (hd view, tl view))"

definition ReadRight :: "StringSegment \<Rightarrow> char \<times> StringSegment" where
  "ReadRight view = (if view = [] then (CHR 0x00, view) else (last view, butlast view))"

text \<open>\<^verbatim>\<open>FirstChar\<close> and \<^verbatim>\<open>LastChar\<close> assert a non-empty view; every caller checks it.\<close>

definition FirstChar :: "StringSegment \<Rightarrow> char" where
  "FirstChar view = hd view"

definition LastChar :: "StringSegment \<Rightarrow> char" where
  "LastChar view = last view"

definition RemovePrefix :: "nat \<Rightarrow> StringSegment \<Rightarrow> StringSegment" where
  "RemovePrefix count view = drop (min count (length view)) view"

definition RemoveSuffix :: "nat \<Rightarrow> StringSegment \<Rightarrow> StringSegment" where
  "RemoveSuffix count view = take (length view - min count (length view)) view"

fun TrimLeft :: "StringSegment \<Rightarrow> StringSegment" where
  "TrimLeft [] = []"
| "TrimLeft (c # cs) = (if tf_isspace c \<or> c = CHR 0x0D then TrimLeft cs else c # cs)"

function TrimRight :: "StringSegment \<Rightarrow> StringSegment" where
  "TrimRight view =
     (if view \<noteq> [] \<and> (tf_isspace (last view) \<or> last view = CHR 0x0D)
      then TrimRight (butlast view) else view)"
  by pat_completeness auto
termination
  by (relation "measure length") auto

declare TrimRight.simps [simp del]

definition Trim :: "StringSegment \<Rightarrow> StringSegment" where
  "Trim view = TrimRight (TrimLeft view)"

text \<open>
  \<^verbatim>\<open>Match\<close> against a pattern; the pattern of every call in the program is a string
  literal, so the null-pointer branch is not reachable and the pattern is a string.
\<close>

fun Match_loop :: "string \<Rightarrow> string \<Rightarrow> bool" where
  "Match_loop (p # ps) (c # cs) = (if tf_tolower p \<noteq> tf_tolower c then False else Match_loop ps cs)"
| "Match_loop _ _ = True"

definition Match :: "StringSegment \<Rightarrow> string \<Rightarrow> bool \<Rightarrow> bool" where
  "Match view p caseSensitive =
     (if length p \<noteq> length view then False
      else if caseSensitive then p = view
      else Match_loop p view)"

text \<open>\<^verbatim>\<open>std::string_view::find\<close> of one character: the first position, if any.\<close>

fun find_char :: "string \<Rightarrow> char \<Rightarrow> nat option" where
  "find_char [] d = None"
| "find_char (c # cs) d = (if c = d then Some 0 else map_option Suc (find_char cs d))"

text \<open>
  \<^verbatim>\<open>Split\<close> at the first occurrence of the delimiter. The result is the returned flag,
  the new view of the segment itself (what follows the delimiter) and the prefix.
\<close>

definition Split :: "char \<Rightarrow> StringSegment \<Rightarrow> bool \<times> StringSegment \<times> StringSegment" where
  "Split delimiter view =
     (if view = [] then (False, view, [])
      else case find_char view delimiter of
             None \<Rightarrow> (True, [], view)
           | Some pos \<Rightarrow> (True, drop (pos + 1) view, take pos view))"

section \<open>Scalar codec: parsing\<close>

text \<open>
  The C++ \<^verbatim>\<open>int\<close> is the 32-bit two's complement integer. It is modelled by \<^typ>\<open>int\<close>;
  \<open>int_wrap\<close> is written wherever the source computes a value that could leave the range,
  and division and remainder are the truncating \<open>sdiv\<close> and \<open>smod\<close>, as in C++.
\<close>

definition INT_MAX :: int where "INT_MAX = 2147483647"
definition INT_MIN :: int where "INT_MIN = - 2147483648"

definition is_int32 :: "int \<Rightarrow> bool" where
  "is_int32 v = (INT_MIN \<le> v \<and> v \<le> INT_MAX)"

definition int_wrap :: "int \<Rightarrow> int" where
  "int_wrap v = (v + 2147483648) mod 4294967296 - 2147483648"

definition posOverflowGuard :: int where "posOverflowGuard = INT_MAX sdiv 10"
definition posLastDigitGuard :: int where "posLastDigitGuard = INT_MAX smod 10"
definition negOverflowGuard :: int where "negOverflowGuard = INT_MIN sdiv 10"
definition negLastDigitGuard :: int where "negLastDigitGuard = INT_MIN smod 10"

text \<open>The digit loop of the integer parser; \<open>result\<close> is the accumulator it writes through.\<close>

fun Parse_int_loop :: "int \<Rightarrow> StringSegment \<Rightarrow> int \<Rightarrow> bool \<times> int" where
  "Parse_int_loop sign [] result = (True, result)"
| "Parse_int_loop sign (c # segment) result =
     (if \<not> tf_isdigit c then (False, result)
      else let digit = (int (of_char c) - 48) * sign in
        if result > posOverflowGuard \<or> result < negOverflowGuard \<or>
           (result = posOverflowGuard \<and> digit > posLastDigitGuard) \<or>
           (result = negOverflowGuard \<and> digit < negLastDigitGuard)
        then (False, result)
        else Parse_int_loop sign segment (int_wrap (result * 10 + digit)))"

text \<open>
  Every \<^verbatim>\<open>Parse\<close> overload takes the variable it writes to by reference. The model takes
  the old value of the variable and returns the flag with the new value.
\<close>

definition Parse_int :: "StringSegment \<Rightarrow> int \<Rightarrow> bool \<times> int" where
  "Parse_int segment0 result0 =
     (let result = 0; segment = Trim segment0 in
      if IsEmpty segment then (False, result)
      else let sign = (if FirstChar segment = CHR ''-'' then - 1 else 1 :: int) in
        if sign = - 1 then
          (let segment = RemovePrefix 1 segment in
           if IsEmpty segment then (False, result)
           else Parse_int_loop sign segment result)
        else Parse_int_loop sign segment result)"

definition Parse_string :: "StringSegment \<Rightarrow> string \<Rightarrow> bool \<times> string" where
  "Parse_string segment0 result =
     (let segment = Trim segment0 in
      if Length segment < 2 then (False, result)
      else if FirstChar segment \<noteq> CHR 0x22 \<or> LastChar segment \<noteq> CHR 0x22 then (False, result)
      else (True, RemoveSuffix 1 (RemovePrefix 1 segment)))"

definition Parse_bool :: "StringSegment \<Rightarrow> bool \<Rightarrow> bool \<times> bool" where
  "Parse_bool segment0 result =
     (let segment = Trim segment0 in
      if Match segment ''true'' False \<or> Match segment ''yes'' False then (True, True)
      else if Match segment ''false'' False \<or> Match segment ''no'' False then (True, False)
      else (False, result))"

lemma find_char_less: "find_char view d = Some pos \<Longrightarrow> pos < length view"
  by (induction view arbitrary: pos) (auto split: if_splits)

lemma Split_shortens:
  "Split d view = (True, view', prefix) \<Longrightarrow> length view' < length view"
  by (auto simp: Split_def split: if_splits option.splits dest: find_char_less)

text \<open>
  The element loop of the sequence parser: \<open>segment\<close> is what is left to split,
  \<open>prefix\<close> the current token. The loop ends with success at an empty token and at the
  \<^verbatim>\<open>break\<close>, when \<^verbatim>\<open>Split\<close> finds the segment empty.
\<close>

function Parse_vector_loop ::
  "StringSegment \<Rightarrow> StringSegment \<Rightarrow> int list \<Rightarrow> bool \<times> int list" where
  "Parse_vector_loop segment prefix result =
     (if IsEmpty prefix then (True, result)
      else if \<not> fst (Parse_int prefix 0) then (False, result)
      else let result = result @ [snd (Parse_int prefix 0)] in
        if \<not> fst (Split (CHR '','') segment) then (True, result)
        else Parse_vector_loop (fst (snd (Split (CHR '','') segment)))
                               (snd (snd (Split (CHR '','') segment))) result)"
  by pat_completeness auto
termination
proof (relation "measure (\<lambda>(segment, prefix, result). length segment)")
  show "wf (measure (\<lambda>(segment, prefix, result). length segment))" by simp
next
  fix segment prefix :: StringSegment and result x :: "int list"
  assume "\<not> \<not> fst (Split (CHR '','') segment)"
  then have "Split (CHR '','') segment =
      (True, fst (snd (Split (CHR '','') segment)), snd (snd (Split (CHR '','') segment)))"
    by (cases "Split (CHR '','') segment") simp
  from Split_shortens [OF this]
  show "((fst (snd (Split (CHR '','') segment)), snd (snd (Split (CHR '','') segment)), x),
         segment, prefix, result) \<in> measure (\<lambda>(segment, prefix, result). length segment)"
    by simp
qed

declare Parse_vector_loop.simps [simp del]

definition Parse_vector :: "StringSegment \<Rightarrow> int list \<Rightarrow> bool \<times> int list" where
  "Parse_vector segment0 result0 =
     (let result = []; segment = Trim segment0 in
      if IsEmpty segment then (False, result)
      else let first = fst (ReadLeft segment); segment = snd (ReadLeft segment);
               last = fst (ReadRight segment); segment = snd (ReadRight segment) in
        if first \<noteq> CHR ''['' \<or> last \<noteq> CHR '']'' then (False, result)
        else let segment = Trim segment in
          if IsEmpty segment then (True, result)
          else Parse_vector_loop (fst (snd (Split (CHR '','') segment)))
                                 (snd (snd (Split (CHR '','') segment))) result)"

section \<open>Scalar codec: encoding\<close>

lemma sdiv_10_smaller: "value \<noteq> 0 \<Longrightarrow> \<bar>value sdiv 10\<bar> < \<bar>value :: int\<bar>"
  by (auto simp: signed_divide_int_def sgn_if abs_mult)

function IntLen_loop :: "int \<Rightarrow> nat \<Rightarrow> nat" where
  "IntLen_loop value len = (if value \<noteq> 0 then IntLen_loop (value sdiv 10) (len + 1) else len)"
  by pat_completeness auto
termination
  by (relation "measure (\<lambda>(value, len). nat \<bar>value\<bar>)") (auto dest: sdiv_10_smaller)

declare IntLen_loop.simps [simp del]

definition IntLen :: "int \<Rightarrow> nat" where
  "IntLen value =
     (if value = 0 then 1
      else IntLen_loop value (if value < 0 then 1 else 0))"

text \<open>\<^verbatim>\<open>std::string::resize\<close>: cut, or fill with NUL characters.\<close>

definition resize :: "string \<Rightarrow> nat \<Rightarrow> string" where
  "resize s n = take n s @ replicate (n - length s) (CHR 0x00)"

text \<open>
  The digit loop of \<^verbatim>\<open>IntToStrHelper\<close> writes from the least significant position to
  the left. The position is a \<^verbatim>\<open>size_t\<close>: the last decrement may wrap around when the
  number starts at position 0, and the wrapped value is never read.
\<close>

function IntToStrHelper_loop :: "int \<Rightarrow> int \<Rightarrow> string \<Rightarrow> nat \<Rightarrow> string" where
  "IntToStrHelper_loop sign value result lsPos =
     (if value \<noteq> 0 then
        (let nextValue = value sdiv 10;
             digit = sign * (value smod 10) in
         IntToStrHelper_loop sign nextValue (result[lsPos := char_of (digit + 48)]) (lsPos - 1))
      else result)"
  by pat_completeness auto
termination
  by (relation "measure (\<lambda>(sign, value, result, lsPos). nat \<bar>value\<bar>)") (auto dest: sdiv_10_smaller)

declare IntToStrHelper_loop.simps [simp del]

text \<open>
  The result is the string written to and the returned position. After the resize every
  position that is written lies inside the string, where the list update is the assignment
  of the source.
\<close>

definition IntToStrHelper :: "int \<Rightarrow> string \<Rightarrow> nat \<Rightarrow> string \<times> nat" where
  "IntToStrHelper value result0 pos =
     (let len = IntLen value;
          result = (if length result0 < pos + len then resize result0 (pos + len) else result0) in
      if value = 0 then (result[pos := CHR ''0''], pos + 1)
      else let sign = (if value < 0 then - 1 else 1);
               result = (if value < 0 then result[pos := CHR ''-''] else result);
               lsPos = pos + len - 1 in
        (IntToStrHelper_loop sign value result lsPos, pos + len))"

definition Encode_int :: "int \<Rightarrow> string \<Rightarrow> string" where
  "Encode_int value out = fst (IntToStrHelper value out 0)"

definition Encode_bool :: "bool \<Rightarrow> string \<Rightarrow> string" where
  "Encode_bool value out = (if value then ''yes'' else ''no'')"

definition Encode_string :: "string \<Rightarrow> string \<Rightarrow> string" where
  "Encode_string value out = [CHR 0x22] @ value @ [CHR 0x22]"

text \<open>
  The sequence encoder sizes the string for the whole text first, so the integer encoder
  never resizes it, and the closing bracket replaces the last comma.
\<close>

fun Encode_vector_loop :: "int list \<Rightarrow> string \<Rightarrow> nat \<Rightarrow> string \<times> nat" where
  "Encode_vector_loop [] out pos = (out, pos)"
| "Encode_vector_loop (v # value) out pos =
     (let out1 = fst (IntToStrHelper v out pos);
          pos1 = snd (IntToStrHelper v out pos) in
      Encode_vector_loop value (out1[pos1 := CHR '','']) (pos1 + 1))"

definition Encode_vector :: "int list \<Rightarrow> string \<Rightarrow> string" where
  "Encode_vector value out0 =
     (if value = [] then ''[]''
      else let totalLen = foldl (\<lambda>t v. t + (IntLen v + 1)) 2 value - 1;
               out = (resize out0 totalLen)[0 := CHR ''['']
           in (fst (Encode_vector_loop value out 1))
                [snd (Encode_vector_loop value out 1) - 1 := CHR '']''])"


section \<open>Records and field adapters\<close>

text \<open>
  A \<^verbatim>\<open>FieldAdapter<T, C>\<close> binds a pointer to a member of type \<^verbatim>\<open>C\<close> of a struct
  \<^verbatim>\<open>T\<close>, for the four types \<^verbatim>\<open>C\<close> that have a \<^verbatim>\<open>Parse\<close> and an \<^verbatim>\<open>Encode\<close>
  overload. The struct is modelled by its members of these four types, each family
  indexed by a number, and a pointer to a member by the family and the index.
\<close>

record T =
  int_members :: "nat \<Rightarrow> int"
  bool_members :: "nat \<Rightarrow> bool"
  string_members :: "nat \<Rightarrow> string"
  vector_members :: "nat \<Rightarrow> int list"

text \<open>The adapter: the member pointer \<open>field_pointer\<close> and the \<open>defaultValue\<close>.\<close>

datatype FieldAdapter =
    IntField nat int
  | BoolField nat bool
  | StringField nat string
  | VectorField nat "int list"

text \<open>
  \<^verbatim>\<open>FromString\<close> is \<^verbatim>\<open>Parse(s, var.*field_pointer)\<close>: the parser writes through the
  reference to the member. The result is the flag and the record afterwards.
\<close>

fun FromString :: "FieldAdapter \<Rightarrow> T \<Rightarrow> StringSegment \<Rightarrow> bool \<times> T" where
  "FromString (IntField fp d) var s =
     (let r = Parse_int s (int_members var fp)
      in (fst r, var\<lparr>int_members := (int_members var)(fp := snd r)\<rparr>))"
| "FromString (BoolField fp d) var s =
     (let r = Parse_bool s (bool_members var fp)
      in (fst r, var\<lparr>bool_members := (bool_members var)(fp := snd r)\<rparr>))"
| "FromString (StringField fp d) var s =
     (let r = Parse_string s (string_members var fp)
      in (fst r, var\<lparr>string_members := (string_members var)(fp := snd r)\<rparr>))"
| "FromString (VectorField fp d) var s =
     (let r = Parse_vector s (vector_members var fp)
      in (fst r, var\<lparr>vector_members := (vector_members var)(fp := snd r)\<rparr>))"

fun ToString :: "FieldAdapter \<Rightarrow> T \<Rightarrow> string \<Rightarrow> string" where
  "ToString (IntField fp d) var out = Encode_int (int_members var fp) out"
| "ToString (BoolField fp d) var out = Encode_bool (bool_members var fp) out"
| "ToString (StringField fp d) var out = Encode_string (string_members var fp) out"
| "ToString (VectorField fp d) var out = Encode_vector (vector_members var fp) out"

fun EqualsDefaultValue :: "FieldAdapter \<Rightarrow> T \<Rightarrow> bool" where
  "EqualsDefaultValue (IntField fp d) var = (int_members var fp = d)"
| "EqualsDefaultValue (BoolField fp d) var = (bool_members var fp = d)"
| "EqualsDefaultValue (StringField fp d) var = (string_members var fp = d)"
| "EqualsDefaultValue (VectorField fp d) var = (vector_members var fp = d)"

fun SetDefaultValue :: "FieldAdapter \<Rightarrow> T \<Rightarrow> T" where
  "SetDefaultValue (IntField fp d) var = var\<lparr>int_members := (int_members var)(fp := d)\<rparr>"
| "SetDefaultValue (BoolField fp d) var = var\<lparr>bool_members := (bool_members var)(fp := d)\<rparr>"
| "SetDefaultValue (StringField fp d) var = var\<lparr>string_members := (string_members var)(fp := d)\<rparr>"
| "SetDefaultValue (VectorField fp d) var = var\<lparr>vector_members := (vector_members var)(fp := d)\<rparr>"

section \<open>Tables\<close>

definition StringToLowerCase :: "string \<Rightarrow> string" where
  "StringToLowerCase s = map tf_tolower s"

record ColumnSpec =
  name :: string
  fieldAdapter :: FieldAdapter

text \<open>
  A table adapter refers to storage of its caller: a \<^verbatim>\<open>RecordAdapter\<close> to one record, a
  \<^verbatim>\<open>TableAdapter\<close> to a vector of records. The model keeps the storage with the adapter.
  \<^verbatim>\<open>emplace_back()\<close> adds the record that the default constructor of the struct makes; it
  is the first component of \<open>VectorRef\<close>.
\<close>

datatype storage = RecordRef T | VectorRef T "T list"

record ITable =
  name2id :: "string \<rightharpoonup> nat"
  columnSpecs :: "ColumnSpec list"
  data :: storage

text \<open>A column name is a \<^verbatim>\<open>const char*\<close>; the null pointer is \<open>None\<close> and counts as the empty name.\<close>

definition AddNamedColumn :: "ITable \<Rightarrow> string option \<Rightarrow> FieldAdapter \<Rightarrow> bool \<times> ITable" where
  "AddNamedColumn t nm field =
     (let key = StringToLowerCase (case nm of None \<Rightarrow> [] | Some n \<Rightarrow> n) in
      if name2id t key \<noteq> None then (False, t)
      else let specs = columnSpecs t @
                 [\<lparr>name = (case nm of None \<Rightarrow> [] | Some n \<Rightarrow> n), fieldAdapter = field\<rparr>]
           in (True, t\<lparr>name2id := (name2id t)(key \<mapsto> length specs - 1), columnSpecs := specs\<rparr>))"

definition ColumnCount :: "ITable \<Rightarrow> nat" where
  "ColumnCount t = length (columnSpecs t)"

definition RowCount :: "ITable \<Rightarrow> nat" where
  "RowCount t = (case data t of RecordRef r \<Rightarrow> 1 | VectorRef d rows \<Rightarrow> length rows)"

definition IsFixedSize :: "ITable \<Rightarrow> bool" where
  "IsFixedSize t = (case data t of RecordRef r \<Rightarrow> True | VectorRef d rows \<Rightarrow> False)"

text \<open>
  The functions that take a row or a column by index assert that it is in range. A failed
  assertion ends the program; it is the result \<open>None\<close>.
\<close>

definition GetRecord :: "ITable \<Rightarrow> nat \<Rightarrow> T option" where
  "GetRecord t i =
     (case data t of
        RecordRef r \<Rightarrow> if i = 0 then Some r else None
      | VectorRef d rows \<Rightarrow> if i < length rows then Some (rows ! i) else None)"

text \<open>Writing through the reference that \<^verbatim>\<open>GetRecord\<close> returns.\<close>

definition PutRecord :: "ITable \<Rightarrow> nat \<Rightarrow> T \<Rightarrow> ITable" where
  "PutRecord t i rec =
     (case data t of
        RecordRef r \<Rightarrow> t\<lparr>data := RecordRef rec\<rparr>
      | VectorRef d rows \<Rightarrow> t\<lparr>data := VectorRef d (rows[i := rec])\<rparr>)"

definition GetColumnByName :: "ITable \<Rightarrow> StringSegment \<Rightarrow> nat option" where
  "GetColumnByName t key = name2id t (StringToLowerCase key)"

definition SetDefaultValues :: "ITable \<Rightarrow> nat \<Rightarrow> ITable option" where
  "SetDefaultValues t row =
     (if \<not> row < RowCount t then None
      else case GetRecord t row of
             None \<Rightarrow> None
           | Some rec \<Rightarrow>
               Some (PutRecord t row
                 (foldl (\<lambda>rec spec. SetDefaultValue (fieldAdapter spec) rec) rec (columnSpecs t))))"

definition SetValue_at :: "ITable \<Rightarrow> nat \<Rightarrow> nat \<Rightarrow> StringSegment \<Rightarrow> (bool \<times> ITable) option" where
  "SetValue_at t row col v =
     (if \<not> col < ColumnCount t then None
      else if \<not> row < RowCount t then None
      else case GetRecord t row of
             None \<Rightarrow> None
           | Some rec \<Rightarrow>
               (let r = FromString (fieldAdapter (columnSpecs t ! col)) rec v
                in Some (fst r, PutRecord t row (snd r))))"

text \<open>The form of \<^verbatim>\<open>SetValue\<close> that takes the column by name fails on an unknown name.\<close>

definition SetValue :: "ITable \<Rightarrow> nat \<Rightarrow> StringSegment \<Rightarrow> StringSegment \<Rightarrow> (bool \<times> ITable) option" where
  "SetValue t row key v =
     (case GetColumnByName t key of
        None \<Rightarrow> Some (False, t)
      | Some col \<Rightarrow> SetValue_at t row col v)"

text \<open>
  \<^verbatim>\<open>NewRow\<close>: the flag and the table afterwards; the index of the new row, which the
  parser does not read, is the last one.
\<close>

definition NewRow :: "ITable \<Rightarrow> (bool \<times> ITable) option" where
  "NewRow t =
     (case data t of
        RecordRef r \<Rightarrow> Some (False, t)
      | VectorRef d rows \<Rightarrow>
          (case SetDefaultValues (t\<lparr>data := VectorRef d (rows @ [d])\<rparr>) (length (rows @ [d]) - 1) of
             None \<Rightarrow> None
           | Some t' \<Rightarrow> Some (True, t')))"


section \<open>Exceptions\<close>

text \<open>
  The two exception classes. A \<^verbatim>\<open>ParseError\<close> is a \<^verbatim>\<open>TestFrameworkError\<close> that also
  holds the file and the line; its message is composed by \<^verbatim>\<open>Compose\<close>.
\<close>

datatype exception =
    TestFrameworkError string
  | ParseErrorObject string string nat


text \<open>\<^verbatim>\<open>std::to_string\<close> of an unsigned number.\<close>

function to_string :: "nat \<Rightarrow> string" where
  "to_string n =
     (if n < 10 then [char_of (48 + n)] else to_string (n div 10) @ [char_of (48 + n mod 10)])"
  by pat_completeness auto
termination
  by (relation "measure id") auto

declare to_string.simps [simp del]

definition Compose :: "string \<Rightarrow> string \<Rightarrow> nat \<Rightarrow> string" where
  "Compose msg file0 line0 =
     (if file0 \<noteq> [] then file0 @ '':'' else []) @
     (if line0 \<noteq> 0 then to_string line0 @ '': '' else []) @ msg"

definition ParseError :: "string \<Rightarrow> string \<Rightarrow> nat \<Rightarrow> exception" where
  "ParseError msg file0 line0 = ParseErrorObject (Compose msg file0 line0) file0 line0"

text \<open>
  What a call does: it returns, it throws an exception, or an assertion fails and the
  program ends. The state reached goes with the first two.
\<close>

datatype 'a outcome = Returns 'a | Throws exception 'a | Aborts

section \<open>The line parser\<close>

text \<open>The line number is a \<^verbatim>\<open>size_t\<close>; no file has the \<open>2 ^ 64\<close> lines that would wrap it.\<close>

record AbstractLineParser =
  lineNumber :: nat
  throwOnError :: bool
  isOK :: bool
  currentFile :: string

text \<open>
  The parser holds pointers to the header and the data table; a null pointer is \<open>None\<close>.
  The model keeps the table pointed to in the place of the pointer, so the two pointers
  are taken to point to different tables.
\<close>

record BasicYamlParser = AbstractLineParser +
  pHeader :: "ITable option"
  pTable :: "ITable option"
  isHeaderSection :: bool

definition IsOK :: "'a AbstractLineParser_scheme \<Rightarrow> bool" where
  "IsOK p = isOK p"

definition CheckCondition ::
  "'a AbstractLineParser_scheme \<Rightarrow> bool \<Rightarrow> string \<Rightarrow> 'a AbstractLineParser_scheme outcome" where
  "CheckCondition p condition error =
     (if condition then Returns p
      else if throwOnError p
        then Throws (ParseError error (currentFile p) (lineNumber p)) (p\<lparr>isOK := False\<rparr>)
        else Returns (p\<lparr>isOK := False\<rparr>))"

definition ThrowError :: "string \<Rightarrow> 'a \<Rightarrow> 'a outcome" where
  "ThrowError msg p = Throws (TestFrameworkError msg) p"



text \<open>
  \<^verbatim>\<open>ParseLine\<close> from the declaration of \<^verbatim>\<open>key\<close> to its end: split at the colon, check
  that neither side is empty, and apply the pair to the header or to the last row.
\<close>

definition ParseLine_key_value :: "BasicYamlParser \<Rightarrow> StringSegment \<Rightarrow> BasicYamlParser outcome" where
  "ParseLine_key_value p0 s0 =
     (let s = Trim (fst (snd (Split (CHR '':'') s0)));
          key = Trim (snd (snd (Split (CHR '':'') s0))) in
      case CheckCondition p0 (\<not> IsEmpty s \<and> \<not> IsEmpty key) ''Key or value is empty.'' of
        Aborts \<Rightarrow> Aborts
      | Throws e p \<Rightarrow> Throws e p
      | Returns p \<Rightarrow>
          if \<not> IsOK p then Returns p
          else if isHeaderSection p then
            (case CheckCondition p (pHeader p \<noteq> None) ''Unexpected header.'' of
               Aborts \<Rightarrow> Aborts
             | Throws e p \<Rightarrow> Throws e p
             | Returns p \<Rightarrow>
                 if \<not> IsOK p then Returns p
                 else case pHeader p of
                   None \<Rightarrow> Aborts
                 | Some header \<Rightarrow>
                     (case SetValue header 0 key s of
                        None \<Rightarrow> Aborts
                      | Some r \<Rightarrow>
                          if \<not> fst r then
                            ThrowError (''Cannot parse header key '' @ [CHR 0x27] @ key @ [CHR 0x27] @
                                        '' with value '' @ [CHR 0x27] @ s @ [CHR 0x27])
                              (p\<lparr>pHeader := Some (snd r)\<rparr>)
                          else Returns (p\<lparr>pHeader := Some (snd r)\<rparr>)))
          else
            (case pTable p of
               None \<Rightarrow> Aborts
             | Some table \<Rightarrow>
                 (let n = RowCount table in
                  case CheckCondition p (n > 0) ''Data section has no active row.'' of
                    Aborts \<Rightarrow> Aborts
                  | Throws e p \<Rightarrow> Throws e p
                  | Returns p \<Rightarrow>
                      if \<not> IsOK p then Returns p
                      else case SetValue table (n - 1) key s of
                        None \<Rightarrow> Aborts
                      | Some r \<Rightarrow>
                          if \<not> fst r then
                            ThrowError (''Cannot parse data key '' @ [CHR 0x27] @ key @ [CHR 0x27] @
                                        '' with value '' @ [CHR 0x27] @ s @ [CHR 0x27])
                              (p\<lparr>pTable := Some (snd r)\<rparr>)
                          else Returns (p\<lparr>pTable := Some (snd r)\<rparr>))))"

definition ParseLine :: "BasicYamlParser \<Rightarrow> StringSegment \<Rightarrow> BasicYamlParser outcome" where
  "ParseLine p0 s0 =
     (case CheckCondition p0 (pTable p0 \<noteq> None) ''Table adapter is not set.'' of
        Aborts \<Rightarrow> Aborts
      | Throws e p \<Rightarrow> Throws e p
      | Returns p \<Rightarrow>
          if \<not> IsOK p then Returns p
          else let s = Trim s0 in
            if IsEmpty s then Returns p
            else let first = FirstChar s in
              if first = CHR ''#'' then Returns p
              else if Match s ''data:'' False then Returns (p\<lparr>isHeaderSection := False\<rparr>)
              else if first = CHR ''-'' then
                (case CheckCondition p (\<not> isHeaderSection p) ''Invalid entry in the header section.'' of
                   Aborts \<Rightarrow> Aborts
                 | Throws e p \<Rightarrow> Throws e p
                 | Returns p \<Rightarrow>
                     if \<not> IsOK p then Returns p
                     else case pTable p of
                       None \<Rightarrow> Aborts
                     | Some table \<Rightarrow>
                         (case NewRow table of
                            None \<Rightarrow> Aborts
                          | Some r \<Rightarrow>
                              (case CheckCondition (p\<lparr>pTable := Some (snd r)\<rparr>) (fst r)
                                      ''Cannot create a new table row.'' of
                                 Aborts \<Rightarrow> Aborts
                               | Throws e p \<Rightarrow> Throws e p
                               | Returns p \<Rightarrow>
                                   if \<not> IsOK p then Returns p
                                   else let s = Trim (RemovePrefix 1 s) in
                                     if IsEmpty s then Returns p
                                     else ParseLine_key_value p s)))
              else ParseLine_key_value p s)"




section \<open>Vocabulary of the properties\<close>

text \<open>The characters that \<^verbatim>\<open>Trim\<close> removes at both ends.\<close>

definition is_ws :: "char \<Rightarrow> bool" where
  "is_ws c = (tf_isspace c \<or> c = CHR 0x0D)"

text \<open>
  The value of a string of decimal digits, as the specification reads it: the magnitude
  written by the digits, an unbounded integer.
\<close>

definition digit_of :: "char \<Rightarrow> int" where
  "digit_of c = int (of_char c) - 48"

definition decimal_value_from :: "int \<Rightarrow> string \<Rightarrow> int" where
  "decimal_value_from n ds = foldl (\<lambda>n c. 10 * n + digit_of c) n ds"

definition decimal_value :: "string \<Rightarrow> int" where
  "decimal_value ds = decimal_value_from 0 ds"



text \<open>
  The decimal digits of a positive number, most significant first, and the decimal text of
  an integer as the specification describes it: digits, a leading minus sign for a negative
  number, and the text 0 for zero.
\<close>

function dec_digits :: "int \<Rightarrow> string" where
  "dec_digits n = (if n \<le> 0 then [] else dec_digits (n div 10) @ [char_of (n mod 10 + 48)])"
  by pat_completeness auto
termination
  by (relation "measure nat") auto

declare dec_digits.simps [simp del]

definition decimal_text :: "int \<Rightarrow> string" where
  "decimal_text v =
     (if v = 0 then ''0'' else (if v < 0 then ''-'' else []) @ dec_digits \<bar>v\<bar>)"


text \<open>
  The text of an integer sequence as the specification describes it: the decimal texts of
  the elements in order, separated by commas with no spaces, between brackets.
\<close>

fun comma_separated :: "string list \<Rightarrow> string" where
  "comma_separated [] = []"
| "comma_separated [t] = t"
| "comma_separated (t # u # us) = t @ '','' @ comma_separated (u # us)"

definition sequence_text :: "int list \<Rightarrow> string" where
  "sequence_text vs = ''['' @ comma_separated (map decimal_text vs) @ '']''"

text \<open>Every element followed by a comma: what the encoder's loop writes.\<close>

definition comma_terminated :: "int list \<Rightarrow> string" where
  "comma_terminated vs = concat (map (\<lambda>v. decimal_text v @ '','') vs)"


text \<open>
  The members of a record, to say which of them an adapter is bound to and what the others
  hold.
\<close>

datatype member_pointer = IntMember nat | BoolMember nat | StringMember nat | VectorMember nat

datatype member_value = IntValue int | BoolValue bool | StringValue string | VectorValue "int list"

fun field_pointer :: "FieldAdapter \<Rightarrow> member_pointer" where
  "field_pointer (IntField fp d) = IntMember fp"
| "field_pointer (BoolField fp d) = BoolMember fp"
| "field_pointer (StringField fp d) = StringMember fp"
| "field_pointer (VectorField fp d) = VectorMember fp"

fun member :: "T \<Rightarrow> member_pointer \<Rightarrow> member_value" where
  "member var (IntMember i) = IntValue (int_members var i)"
| "member var (BoolMember i) = BoolValue (bool_members var i)"
| "member var (StringMember i) = StringValue (string_members var i)"
| "member var (VectorMember i) = VectorValue (vector_members var i)"

fun resets_before_parsing :: "FieldAdapter \<Rightarrow> bool" where
  "resets_before_parsing (IntField fp d) = True"
| "resets_before_parsing (BoolField fp d) = False"
| "resets_before_parsing (StringField fp d) = False"
| "resets_before_parsing (VectorField fp d) = True"

definition example_record :: T where
  "example_record =
     \<lparr>int_members = (\<lambda>i. 5), bool_members = (\<lambda>i. True),
      string_members = (\<lambda>i. ''old''), vector_members = (\<lambda>i. [7, 8])\<rparr>"


text \<open>
  The outcome of a failed \<^verbatim>\<open>CheckCondition\<close> in the parser state \<open>p\<close>: the parse is marked
  as failed; in strict mode a \<^verbatim>\<open>ParseError\<close> with the file and the line is thrown, in
  lenient mode the call returns. Nothing else of the state changes.
\<close>

definition parse_failure :: "BasicYamlParser \<Rightarrow> string \<Rightarrow> BasicYamlParser outcome" where
  "parse_failure p error =
     (if throwOnError p
      then Throws (ParseErrorObject (Compose error (currentFile p) (lineNumber p))
                     (currentFile p) (lineNumber p)) (p\<lparr>isOK := False\<rparr>)
      else Returns (p\<lparr>isOK := False\<rparr>))"

text \<open>
  A trimmed line that is an entry: not blank, not a comment and not the marker of the data
  section. The key and the value of an entry as the specification reads them: what stands
  before the first colon and what stands after it, trimmed.
\<close>

definition entry_line :: "string \<Rightarrow> bool" where
  "entry_line t = (t \<noteq> [] \<and> hd t \<noteq> CHR ''#'' \<and> StringToLowerCase t \<noteq> ''data:'')"

definition line_key :: "string \<Rightarrow> string" where
  "line_key t = Trim (takeWhile (\<lambda>c. c \<noteq> CHR '':'') t)"

definition line_value :: "string \<Rightarrow> string" where
  "line_value t = Trim (drop 1 (dropWhile (\<lambda>c. c \<noteq> CHR '':'') t))"

text \<open>A parser for the examples: a header record and an empty data table, one column each.\<close>

definition example_header :: ITable where
  "example_header =
     \<lparr>name2id = [''problems'' \<mapsto> 0],
      columnSpecs = [\<lparr>name = ''problems'', fieldAdapter = IntField 0 (- 1)\<rparr>],
      data = RecordRef example_record\<rparr>"

definition example_table :: ITable where
  "example_table =
     \<lparr>name2id = [''problem'' \<mapsto> 0],
      columnSpecs = [\<lparr>name = ''problem'', fieldAdapter = IntField 0 (- 1)\<rparr>],
      data = VectorRef example_record []\<rparr>"

definition example_parser :: BasicYamlParser where
  "example_parser =
     \<lparr>lineNumber = 0, throwOnError = False, isOK = True, currentFile = [],
      pHeader = Some example_header, pTable = Some example_table, isHeaderSection = True\<rparr>"


text \<open>
  What the program keeps true of a table adapter and of a parser. \<^verbatim>\<open>AddNamedColumn\<close> is
  the only function that changes the columns, and it indexes every name with the position
  of its column; the constructor and the setters of the parser assert that the header has
  a row.
\<close>

definition wf_table :: "ITable \<Rightarrow> bool" where
  "wf_table t = (\<forall>key col. name2id t key = Some col \<longrightarrow> col < length (columnSpecs t))"





text \<open>
  The failures of a line, as the specification lists them, for a parser in the state \<open>p\<close>.
  An unknown column is a key that the name index of the table does not hold; a malformed
  value is a text that the parser of the kind of the column rejects. A failure is reported
  by a failed check of the line parser or by an error that it throws.
\<close>

datatype report = Checked | Thrown

definition unknown_column :: "ITable \<Rightarrow> string \<Rightarrow> bool" where
  "unknown_column t key = (name2id t (StringToLowerCase key) = None)"

definition malformed_value :: "ITable \<Rightarrow> nat \<Rightarrow> string \<Rightarrow> string \<Rightarrow> bool" where
  "malformed_value t row key v =
     (case name2id t (StringToLowerCase key) of
        None \<Rightarrow> False
      | Some col \<Rightarrow>
          (case GetRecord t row of
             None \<Rightarrow> False
           | Some rec \<Rightarrow> \<not> fst (FromString (fieldAdapter (columnSpecs t ! col)) rec v)))"

definition cannot_parse :: "string \<Rightarrow> string \<Rightarrow> string \<Rightarrow> string" where
  "cannot_parse what_key key v =
     ''Cannot parse '' @ what_key @ '' key '' @ [CHR 0x27] @ key @ [CHR 0x27] @
     '' with value '' @ [CHR 0x27] @ v @ [CHR 0x27]"

text \<open>The failure of an entry, a trimmed text that is not empty, and its message.\<close>

definition entry_failure :: "BasicYamlParser \<Rightarrow> string \<Rightarrow> (report \<times> string) option" where
  "entry_failure p e =
     (if line_key e = [] \<or> line_value e = [] then Some (Checked, ''Key or value is empty.'')
      else if isHeaderSection p then
        (case pHeader p of
           None \<Rightarrow> Some (Checked, ''Unexpected header.'')
         | Some header \<Rightarrow>
             if unknown_column header (line_key e) \<or>
                malformed_value header 0 (line_key e) (line_value e)
             then Some (Thrown, cannot_parse ''header'' (line_key e) (line_value e))
             else None)
      else
        (case pTable p of
           None \<Rightarrow> None
         | Some table \<Rightarrow>
             if RowCount table = 0 then Some (Checked, ''Data section has no active row.'')
             else if unknown_column table (line_key e) \<or>
                     malformed_value table (RowCount table - 1) (line_key e) (line_value e)
             then Some (Thrown, cannot_parse ''data'' (line_key e) (line_value e))
             else None))"

text \<open>
  The failure of a line. Blank lines, comments and the marker of the data section never
  fail. A line that starts with \<open>-\<close> fails in the header section and on a table of fixed
  size; otherwise its row is appended, and what follows the \<open>-\<close> is an entry for that row.
\<close>

definition line_failure :: "BasicYamlParser \<Rightarrow> string \<Rightarrow> (report \<times> string) option" where
  "line_failure p s =
     (case pTable p of
        None \<Rightarrow> Some (Checked, ''Table adapter is not set.'')
      | Some table \<Rightarrow>
          if Trim s = [] \<or> hd (Trim s) = CHR ''#'' \<or> StringToLowerCase (Trim s) = ''data:''
          then None
          else if hd (Trim s) = CHR ''-'' then
            (if isHeaderSection p then Some (Checked, ''Invalid entry in the header section.'')
             else if IsFixedSize table then Some (Checked, ''Cannot create a new table row.'')
             else if Trim (tl (Trim s)) = [] then None
             else entry_failure (p\<lparr>pTable := map_option snd (NewRow table)\<rparr>) (Trim (tl (Trim s))))
          else entry_failure p (Trim s))"




section \<open>Trimming and digits\<close>


lemma TrimLeft_id: "s \<noteq> [] \<Longrightarrow> \<not> is_ws (hd s) \<Longrightarrow> TrimLeft s = s"
  by (cases s) (auto simp: is_ws_def)

lemma TrimRight_id: "s \<noteq> [] \<Longrightarrow> \<not> is_ws (last s) \<Longrightarrow> TrimRight s = s"
  by (subst TrimRight.simps) (auto simp: is_ws_def)

lemma Trim_id: "s \<noteq> [] \<Longrightarrow> \<not> is_ws (hd s) \<Longrightarrow> \<not> is_ws (last s) \<Longrightarrow> Trim s = s"
  by (simp add: Trim_def TrimLeft_id TrimRight_id)

lemma digit_not_ws: "tf_isdigit c \<Longrightarrow> \<not> is_ws c"
  by (auto simp: tf_isdigit_def is_ws_def tf_isspace_def)

lemma digit_not_minus: "tf_isdigit c \<Longrightarrow> c \<noteq> CHR ''-''"
  by (auto simp: tf_isdigit_def)

lemma digit_of_range: "tf_isdigit c \<Longrightarrow> 0 \<le> digit_of c \<and> digit_of c \<le> 9"
  by (auto simp: tf_isdigit_def digit_of_def)

lemma decimal_value_from_ge:
  "list_all tf_isdigit ds \<Longrightarrow> 0 \<le> n \<Longrightarrow> n \<le> decimal_value_from n ds"
proof (induction ds arbitrary: n)
  case Nil then show ?case by (simp add: decimal_value_from_def)
next
  case (Cons c ds)
  from Cons.prems have d: "0 \<le> digit_of c" using digit_of_range by simp
  have "10 * n + digit_of c \<le> decimal_value_from (10 * n + digit_of c) ds"
    using Cons.prems d by (intro Cons.IH) auto
  then show ?case using Cons.prems d by (simp add: decimal_value_from_def)
qed

lemma int_wrap_id: "- 2147483648 \<le> v \<Longrightarrow> v \<le> 2147483647 \<Longrightarrow> int_wrap v = v"
  by (simp add: int_wrap_def)

lemmas guards = posOverflowGuard_def posLastDigitGuard_def negOverflowGuard_def
  negLastDigitGuard_def INT_MAX_def INT_MIN_def

lemma Parse_int_loop_pos:
  "list_all tf_isdigit ds \<Longrightarrow> 0 \<le> r \<Longrightarrow> r \<le> 2147483647 \<Longrightarrow>
   (fst (Parse_int_loop 1 ds r) \<longleftrightarrow> decimal_value_from r ds \<le> 2147483647) \<and>
   (fst (Parse_int_loop 1 ds r) \<longrightarrow> snd (Parse_int_loop 1 ds r) = decimal_value_from r ds)"
proof (induction ds arbitrary: r)
  case Nil then show ?case by (simp add: decimal_value_from_def)
next
  case (Cons c ds)
  from Cons.prems have dig: "tf_isdigit c" and rest: "list_all tf_isdigit ds" by simp_all
  from digit_of_range [OF dig] have d: "0 \<le> digit_of c" "digit_of c \<le> 9" by simp_all
  let ?r' = "10 * r + digit_of c"
  have unfold: "decimal_value_from r (c # ds) = decimal_value_from ?r' ds"
    by (simp add: decimal_value_from_def)
  have ge: "?r' \<le> decimal_value_from ?r' ds"
    using rest d Cons.prems by (intro decimal_value_from_ge) auto
  show ?case
  proof (cases "r > 214748364 \<or> (r = 214748364 \<and> digit_of c > 7)")
    case True
    then have "?r' > 2147483647" using d by auto
    with ge have "\<not> decimal_value_from r (c # ds) \<le> 2147483647" unfolding unfold by linarith
    moreover have "\<not> fst (Parse_int_loop 1 (c # ds) r)"
      using True dig Cons.prems by (auto simp: guards digit_of_def Let_def)
    ultimately show ?thesis by simp
  next
    case False
    then have le: "?r' \<le> 2147483647" and ge0: "0 \<le> ?r'" using d Cons.prems by auto
    have step: "Parse_int_loop 1 (c # ds) r = Parse_int_loop 1 ds ?r'"
      using False dig Cons.prems le ge0 d
      by (auto simp: guards digit_of_def Let_def int_wrap_id mult.commute)
    show ?thesis unfolding step unfold using Cons.IH [OF rest ge0 le] .
  qed
qed

lemma Parse_int_loop_neg:
  "list_all tf_isdigit ds \<Longrightarrow> 0 \<le> r \<Longrightarrow> r \<le> 2147483648 \<Longrightarrow>
   (fst (Parse_int_loop (- 1) ds (- r)) \<longleftrightarrow> decimal_value_from r ds \<le> 2147483648) \<and>
   (fst (Parse_int_loop (- 1) ds (- r)) \<longrightarrow> snd (Parse_int_loop (- 1) ds (- r)) = - decimal_value_from r ds)"
proof (induction ds arbitrary: r)
  case Nil then show ?case by (simp add: decimal_value_from_def)
next
  case (Cons c ds)
  from Cons.prems have dig: "tf_isdigit c" and rest: "list_all tf_isdigit ds" by simp_all
  from digit_of_range [OF dig] have d: "0 \<le> digit_of c" "digit_of c \<le> 9" by simp_all
  let ?r' = "10 * r + digit_of c"
  have unfold: "decimal_value_from r (c # ds) = decimal_value_from ?r' ds"
    by (simp add: decimal_value_from_def)
  have ge: "?r' \<le> decimal_value_from ?r' ds"
    using rest d Cons.prems by (intro decimal_value_from_ge) auto
  show ?case
  proof (cases "r > 214748364 \<or> (r = 214748364 \<and> digit_of c > 8)")
    case True
    then have "?r' > 2147483648" using d by auto
    with ge have "\<not> decimal_value_from r (c # ds) \<le> 2147483648" unfolding unfold by linarith
    moreover have "\<not> fst (Parse_int_loop (- 1) (c # ds) (- r))"
      using True dig Cons.prems by (auto simp: guards digit_of_def Let_def)
    ultimately show ?thesis by simp
  next
    case False
    then have le: "?r' \<le> 2147483648" and ge0: "0 \<le> ?r'" using d Cons.prems by auto
    have step: "Parse_int_loop (- 1) (c # ds) (- r) = Parse_int_loop (- 1) ds (- ?r')"
      using False dig Cons.prems le ge0 d
      by (auto simp: guards digit_of_def Let_def int_wrap_id mult.commute)
    show ?thesis unfolding step unfold using Cons.IH [OF rest ge0 le] .
  qed
qed


lemma minus_not_ws: "\<not> is_ws (CHR ''-'')"
  by (simp add: is_ws_def tf_isspace_def)

lemma last_digit: "ds \<noteq> [] \<Longrightarrow> list_all tf_isdigit ds \<Longrightarrow> tf_isdigit (last ds)"
  by (simp add: list_all_iff)

lemma hd_digit: "ds \<noteq> [] \<Longrightarrow> list_all tf_isdigit ds \<Longrightarrow> tf_isdigit (hd ds)"
  by (cases ds) simp_all

lemma Parse_int_digits:
  assumes "ds \<noteq> []" "list_all tf_isdigit ds"
  shows "Parse_int ds r0 = Parse_int_loop 1 ds 0"
proof -
  have "Trim ds = ds"
    using assms by (intro Trim_id digit_not_ws hd_digit last_digit)
  moreover have "hd ds \<noteq> CHR ''-''"
    using assms by (intro digit_not_minus hd_digit)
  ultimately show ?thesis
    using assms by (simp add: Parse_int_def IsEmpty_def FirstChar_def)
qed

lemma Parse_int_minus_digits:
  assumes "ds \<noteq> []" "list_all tf_isdigit ds"
  shows "Parse_int (CHR ''-'' # ds) r0 = Parse_int_loop (- 1) ds 0"
proof -
  have "Trim (CHR ''-'' # ds) = CHR ''-'' # ds"
    using assms by (intro Trim_id) (simp_all add: minus_not_ws digit_not_ws last_digit)
  then show ?thesis
    using assms by (simp add: Parse_int_def IsEmpty_def FirstChar_def RemovePrefix_def)
qed

text \<open>
  Claim C2. For a non-empty string of decimal digits, the integer parser succeeds exactly
  when the magnitude fits: without a sign up to \<open>INT_MAX = 2147483647\<close>, after a minus
  sign up to \<open>2147483648\<close>, and then it returns the number written; a larger magnitude
  is a failure, never a wrapped or truncated value.
\<close>

theorem Parse_int_range:
  assumes "ds \<noteq> []" and "list_all tf_isdigit ds"
  shows "(fst (Parse_int ds r0) \<longleftrightarrow> decimal_value ds \<le> INT_MAX) \<and>
         (decimal_value ds \<le> INT_MAX \<longrightarrow> Parse_int ds r0 = (True, decimal_value ds)) \<and>
         (fst (Parse_int (CHR ''-'' # ds) r0) \<longleftrightarrow> INT_MIN \<le> - decimal_value ds) \<and>
         (INT_MIN \<le> - decimal_value ds \<longrightarrow>
            Parse_int (CHR ''-'' # ds) r0 = (True, - decimal_value ds))"
proof -
  have pos: "(fst (Parse_int_loop 1 ds 0) \<longleftrightarrow> decimal_value ds \<le> 2147483647) \<and>
      (fst (Parse_int_loop 1 ds 0) \<longrightarrow> snd (Parse_int_loop 1 ds 0) = decimal_value ds)"
    unfolding decimal_value_def using assms(2) by (intro Parse_int_loop_pos) simp_all
  have neg: "(fst (Parse_int_loop (- 1) ds (- 0)) \<longleftrightarrow> decimal_value ds \<le> 2147483648) \<and>
      (fst (Parse_int_loop (- 1) ds (- 0)) \<longrightarrow>
         snd (Parse_int_loop (- 1) ds (- 0)) = - decimal_value ds)"
    unfolding decimal_value_def using assms(2) by (intro Parse_int_loop_neg) simp_all
  show ?thesis
    using pos neg
    by (simp add: Parse_int_digits [OF assms] Parse_int_minus_digits [OF assms]
        INT_MAX_def INT_MIN_def prod_eq_iff)
qed

theorem Parse_int_range_witness:
  "''2147483648'' \<noteq> [] \<and> list_all tf_isdigit ''2147483648'' \<and>
   \<not> fst (Parse_int ''2147483648'' 5) \<and>
   Parse_int ''-2147483648'' 5 = (True, - 2147483648) \<and>
   \<not> fst (Parse_int ''-2147483649'' 5) \<and>
   Parse_int ''2147483647'' 5 = (True, 2147483647)"
proof -
  have n: "''2147483648'' \<noteq> []" "''2147483649'' \<noteq> []" "''2147483647'' \<noteq> []"
    by simp_all
  have d: "list_all tf_isdigit ''2147483648''" "list_all tf_isdigit ''2147483649''"
    "list_all tf_isdigit ''2147483647''"
    by (simp_all add: tf_isdigit_def)
  have v: "decimal_value ''2147483648'' = 2147483648"
    "decimal_value ''2147483649'' = 2147483649"
    "decimal_value ''2147483647'' = 2147483647"
    by (simp_all add: decimal_value_def decimal_value_from_def digit_of_def)
  show ?thesis
    using Parse_int_range [OF n(1) d(1), of 5] Parse_int_range [OF n(2) d(2), of 5]
      Parse_int_range [OF n(3) d(3), of 5] d(1)
    by (simp add: v INT_MAX_def INT_MIN_def)
qed


section \<open>What trimming computes\<close>


lemma TrimLeft_dropWhile: "TrimLeft s = dropWhile is_ws s"
  by (induction s) (auto simp: is_ws_def)

lemma TrimRight_dropWhile: "TrimRight s = rev (dropWhile is_ws (rev s))"
proof (induction s rule: TrimRight.induct)
  case (1 view)
  show ?case
  proof (cases "view \<noteq> [] \<and> is_ws (last view)")
    case True
    then obtain ys y where v: "view = ys @ [y]" by (metis append_butlast_last_id)
    with True have "TrimRight view = TrimRight ys"
      by (subst TrimRight.simps) (auto simp: is_ws_def)
    also have "\<dots> = rev (dropWhile is_ws (rev ys))"
    proof -
      have "view \<noteq> [] \<and> (tf_isspace (last view) \<or> last view = CHR 0x0D)"
        using True by (simp add: is_ws_def)
      from "1.IH" [OF this] show ?thesis by (simp add: v)
    qed
    finally show ?thesis using True v by simp
  next
    case False
    then have "TrimRight view = view"
      by (subst TrimRight.simps) (auto simp: is_ws_def)
    moreover have "rev (dropWhile is_ws (rev view)) = view"
      using False by (cases view rule: rev_cases) auto
    ultimately show ?thesis by simp
  qed
qed

lemma Trim_dropWhile: "Trim s = rev (dropWhile is_ws (rev (dropWhile is_ws s)))"
  by (simp add: Trim_def TrimLeft_dropWhile TrimRight_dropWhile)

lemma Trim_ends:
  assumes "Trim s \<noteq> []"
  shows "\<not> is_ws (hd (Trim s))" and "\<not> is_ws (last (Trim s))"
proof -
  let ?l = "dropWhile is_ws s"
  let ?r = "dropWhile is_ws (rev ?l)"
  from assms have r: "?r \<noteq> []" by (simp add: Trim_dropWhile)
  then have l: "?l \<noteq> []" by force
  have "last (Trim s) = hd ?r" using r by (simp add: Trim_dropWhile last_rev)
  then show "\<not> is_ws (last (Trim s))" using r hd_dropWhile by metis
  have "hd (Trim s) = last ?r" using r by (simp add: Trim_dropWhile hd_rev)
  also have "\<dots> = last (rev ?l)"
  proof -
    obtain n where n: "?r = drop n (rev ?l)" by (metis dropWhile_eq_drop)
    with r have "n < length (rev ?l)" by auto
    then show ?thesis unfolding n by (simp add: last_drop)
  qed
  also have "\<dots> = hd ?l" using l by (simp add: last_rev)
  finally show "\<not> is_ws (hd (Trim s))" using l hd_dropWhile by metis
qed

lemma Trim_Trim: "Trim (Trim s) = Trim s"
proof (cases "Trim s = []")
  case True then show ?thesis by (simp add: Trim_def) (simp add: TrimRight.simps)
next
  case False then show ?thesis by (intro Trim_id Trim_ends)
qed



section \<open>The integer encoder writes the decimal text\<close>

lemma dec_digits_0: "n \<le> 0 \<Longrightarrow> dec_digits n = []"
  by (simp add: dec_digits.simps)

lemma dec_digits_pos: "0 < n \<Longrightarrow> dec_digits n = dec_digits (n div 10) @ [char_of (n mod 10 + 48)]"
  by (subst dec_digits.simps) simp

lemma dec_digits_nonempty: "0 < n \<Longrightarrow> dec_digits n \<noteq> []"
  by (simp add: dec_digits_pos)

lemma digit_char: "0 \<le> d \<Longrightarrow> d \<le> 9 \<Longrightarrow>
  tf_isdigit (char_of (d + 48 :: int)) \<and> digit_of (char_of (d + 48 :: int)) = d"
proof -
  assume d: "0 \<le> d" "d \<le> 9"
  have "(of_char (char_of (d + 48)) :: int) = (d + 48) mod 256" by (rule of_char_of)
  also have "\<dots> = d + 48" using d by simp
  finally have i: "(of_char (char_of (d + 48)) :: int) = d + 48" .
  have "int (of_char (char_of (d + 48))) = (of_char (char_of (d + 48)) :: int)"
    by (rule of_nat_of_char)
  with i have n: "int (of_char (char_of (d + 48))) = d + 48" by simp
  then have "(of_char (char_of (d + 48)) :: nat) = nat (d + 48)" by linarith
  then show ?thesis using d n by (auto simp: tf_isdigit_def digit_of_def)
qed

lemma dec_digits_all_digits: "list_all tf_isdigit (dec_digits n)"
proof (induction n rule: dec_digits.induct)
  case (1 n)
  show ?case
  proof (cases "n \<le> 0")
    case True then show ?thesis by (simp add: dec_digits_0)
  next
    case False
    then have "tf_isdigit (char_of (n mod 10 + 48))" by (intro digit_char [THEN conjunct1]) auto
    with False 1 show ?thesis by (simp add: dec_digits_pos)
  qed
qed

lemma decimal_value_from_snoc:
  "decimal_value_from r (ds @ [c]) = 10 * decimal_value_from r ds + digit_of c"
  by (simp add: decimal_value_from_def)

lemma decimal_value_dec_digits: "0 \<le> n \<Longrightarrow> decimal_value (dec_digits n) = n"
proof (induction n rule: dec_digits.induct)
  case (1 n)
  show ?case
  proof (cases "n \<le> 0")
    case True with 1 show ?thesis by (simp add: dec_digits_0 decimal_value_def decimal_value_from_def)
  next
    case False
    then have "digit_of (char_of (n mod 10 + 48)) = n mod 10"
      by (intro digit_char [THEN conjunct2]) auto
    moreover have "decimal_value (dec_digits (n div 10)) = n div 10"
      using False by (intro "1.IH") auto
    ultimately show ?thesis using False
      by (simp add: dec_digits_pos decimal_value_def decimal_value_from_snoc)
  qed
qed

lemma abs_sdiv_10: "\<bar>v sdiv 10\<bar> = \<bar>v :: int\<bar> div 10"
  by (auto simp: signed_divide_int_def sgn_if abs_mult)

lemma sgn_smod_10: "sgn v * (v smod 10) = \<bar>v :: int\<bar> mod 10"
  by (auto simp: signed_modulo_int_def sgn_if)

lemma sgn_sdiv_10: "v sdiv 10 \<noteq> 0 \<Longrightarrow> sgn (v sdiv 10) = sgn (v :: int)"
  by (auto simp: signed_divide_int_def sgn_if split: if_splits)

lemma IntLen_loop_eq: "IntLen_loop v len = len + length (dec_digits \<bar>v\<bar>)"
proof (induction v len rule: IntLen_loop.induct)
  case (1 v len)
  show ?case
  proof (cases "v = 0")
    case True then show ?thesis by (simp add: IntLen_loop.simps dec_digits_0)
  next
    case False
    then have "IntLen_loop v len = IntLen_loop (v sdiv 10) (len + 1)"
      by (subst IntLen_loop.simps) simp
    also have "\<dots> = len + 1 + length (dec_digits \<bar>v sdiv 10\<bar>)" using False by (rule "1.IH")
    also have "\<dots> = len + length (dec_digits \<bar>v\<bar>)"
      using False by (simp add: abs_sdiv_10 dec_digits_pos [of "\<bar>v\<bar>"])
    finally show ?thesis .
  qed
qed

lemma IntLen_eq:
  "v \<noteq> 0 \<Longrightarrow> IntLen v = (if v < 0 then 1 else 0) + length (dec_digits \<bar>v\<bar>)"
  by (simp add: IntLen_def IntLen_loop_eq)

lemma IntToStrHelper_loop_eq:
  "(v \<noteq> 0 \<longrightarrow> sign = sgn v) \<Longrightarrow> length (dec_digits \<bar>v\<bar>) \<le> lsPos + 1 \<Longrightarrow>
   lsPos < length result \<Longrightarrow>
   IntToStrHelper_loop sign v result lsPos =
     take (lsPos + 1 - length (dec_digits \<bar>v\<bar>)) result @ dec_digits \<bar>v\<bar> @ drop (lsPos + 1) result"
proof (induction sign v result lsPos rule: IntToStrHelper_loop.induct)
  case (1 sign v result lsPos)
  show ?case
  proof (cases "v = 0")
    case True then show ?thesis by (simp add: IntToStrHelper_loop.simps dec_digits_0)
  next
    case False
    let ?v' = "v sdiv 10"
    let ?d = "char_of (\<bar>v\<bar> mod 10 + 48) :: char"
    let ?r' = "result[lsPos := ?d]"
    from False "1.prems" have sign: "sign = sgn v" by simp
    have step: "IntToStrHelper_loop sign v result lsPos = IntToStrHelper_loop sign ?v' ?r' (lsPos - 1)"
      using False by (subst IntToStrHelper_loop.simps) (simp add: sign sgn_smod_10 Let_def)
    have dd: "dec_digits \<bar>v\<bar> = dec_digits \<bar>?v'\<bar> @ [?d]"
      using False by (simp add: abs_sdiv_10 dec_digits_pos [of "\<bar>v\<bar>"])
    have r': "?r' = take lsPos result @ ?d # drop (lsPos + 1) result"
      using "1.prems"(3) by (simp add: upd_conv_take_nth_drop)
    show ?thesis
    proof (cases "?v' = 0")
      case True
      then have "IntToStrHelper_loop sign ?v' ?r' (lsPos - 1) = ?r'"
        by (simp add: IntToStrHelper_loop.simps)
      moreover have "dec_digits \<bar>v\<bar> = [?d]" using dd True by (simp add: dec_digits_0)
      ultimately show ?thesis unfolding step using r' by simp
    next
      case nz: False
      then have pos: "0 < \<bar>?v'\<bar>" by simp
      have len': "length (dec_digits \<bar>?v'\<bar>) \<le> lsPos" using "1.prems"(2) dd by simp
      moreover have "dec_digits \<bar>?v'\<bar> \<noteq> []" using pos by (rule dec_digits_nonempty)
      ultimately have lpos: "0 < lsPos" by (cases lsPos) auto
      have d_eq: "sign * (v smod 10) = \<bar>v\<bar> mod 10" by (simp add: sign sgn_smod_10)
      have h1: "?v' \<noteq> 0 \<longrightarrow> sign = sgn ?v'" using sign sgn_sdiv_10 by simp
      have h2: "length (dec_digits \<bar>?v'\<bar>) \<le> lsPos - 1 + 1" using len' lpos by simp
      have h3: "lsPos - 1 < length (result[lsPos := char_of (sign * (v smod 10) + 48)])"
        using "1.prems"(3) by simp
      have "IntToStrHelper_loop sign ?v' ?r' (lsPos - 1) =
        take (lsPos - 1 + 1 - length (dec_digits \<bar>?v'\<bar>)) ?r' @ dec_digits \<bar>?v'\<bar> @
          drop (lsPos - 1 + 1) ?r'"
        using "1.IH" [OF False refl refl h1 h2 h3] unfolding d_eq .
      also have "\<dots> = take (lsPos - length (dec_digits \<bar>?v'\<bar>)) result @ dec_digits \<bar>?v'\<bar> @
          ?d # drop (lsPos + 1) result"
        using lpos "1.prems"(3) by (simp add: r')
      also have "\<dots> = take (lsPos + 1 - length (dec_digits \<bar>v\<bar>)) result @ dec_digits \<bar>v\<bar> @
          drop (lsPos + 1) result"
        by (simp add: dd)
      finally show ?thesis unfolding step .
    qed
  qed
qed

lemma IntLen_decimal_text: "IntLen v = length (decimal_text v)"
  by (cases "v = 0") (simp_all add: IntLen_eq decimal_text_def, simp add: IntLen_def)

lemma IntToStrHelper_inplace:
  assumes "pos + IntLen v \<le> length result"
  shows "IntToStrHelper v result pos =
     (take pos result @ decimal_text v @ drop (pos + IntLen v) result, pos + IntLen v)"
proof (cases "v = 0")
  case True
  then have len: "IntLen v = 1" by (simp add: IntLen_def)
  with assms have "pos < length result" by simp
  then have "result[pos := CHR ''0''] = take pos result @ ''0'' @ drop (pos + 1) result"
    by (simp add: upd_conv_take_nth_drop)
  with True assms len show ?thesis by (simp add: IntToStrHelper_def decimal_text_def)
next
  case False
  let ?k = "length (dec_digits \<bar>v\<bar>)"
  let ?s = "if v < 0 then 1 else 0 :: nat"
  let ?r1 = "if v < 0 then result[pos := CHR ''-''] else result"
  have len: "IntLen v = ?s + ?k" using False by (simp add: IntLen_eq)
  have k: "0 < ?k" using False dec_digits_nonempty [of "\<bar>v\<bar>"] by simp
  have sgn: "(if v < 0 then - 1 else 1) = sgn v" using False by (simp add: sgn_if)
  have "IntToStrHelper_loop (sgn v) v ?r1 (pos + IntLen v - 1) =
      take (pos + IntLen v - 1 + 1 - ?k) ?r1 @ dec_digits \<bar>v\<bar> @ drop (pos + IntLen v - 1 + 1) ?r1"
  proof (rule IntToStrHelper_loop_eq)
    show "v \<noteq> 0 \<longrightarrow> sgn v = sgn v" by simp
    show "?k \<le> pos + IntLen v - 1 + 1" using len by linarith
    have "pos + IntLen v - 1 < length result" using assms len k by linarith
    then show "pos + IntLen v - 1 < length ?r1" by simp
  qed
  also have "pos + IntLen v - 1 + 1 = pos + IntLen v" using len k by simp
  also have "pos + IntLen v - ?k = pos + ?s" using len by simp
  also have "take (pos + ?s) ?r1 = take pos result @ (if v < 0 then ''-'' else [])"
    using assms len k by (auto simp: upd_conv_take_nth_drop)
  also have "drop (pos + IntLen v) ?r1 = drop (pos + IntLen v) result"
    using len k by simp
  finally have "IntToStrHelper_loop (sgn v) v ?r1 (pos + IntLen v - 1) =
      take pos result @ decimal_text v @ drop (pos + IntLen v) result"
    using False by (simp add: decimal_text_def)
  then show ?thesis
    using False assms by (cases "v < 0") (simp_all add: IntToStrHelper_def Let_def sgn_if)
qed

lemma Encode_int_eq:
  assumes "length out \<le> IntLen v"
  shows "Encode_int v out = decimal_text v"
proof -
  let ?R = "if length out < 0 + IntLen v then resize out (0 + IntLen v) else out"
  have len: "length ?R = IntLen v" using assms by (auto simp: resize_def)
  have "IntToStrHelper v out 0 = IntToStrHelper v ?R 0"
    using len by (auto simp: IntToStrHelper_def Let_def)
  also have "\<dots> = (take 0 ?R @ decimal_text v @ drop (0 + IntLen v) ?R, 0 + IntLen v)"
    using len by (intro IntToStrHelper_inplace) simp
  finally show ?thesis using len by (simp add: Encode_int_def)
qed

lemma Parse_int_decimal_text:
  assumes "is_int32 v"
  shows "Parse_int (decimal_text v) r0 = (True, v)"
proof -
  from assms have range: "- 2147483648 \<le> v" "v \<le> 2147483647"
    by (simp_all add: is_int32_def INT_MIN_def INT_MAX_def)
  consider "v = 0" | "0 < v" | "v < 0" by linarith
  then show ?thesis
  proof cases
    case 1
    have "Parse_int ''0'' r0 = Parse_int_loop 1 ''0'' 0"
      by (intro Parse_int_digits) (simp_all add: tf_isdigit_def)
    then show ?thesis using 1
      by (simp add: decimal_text_def tf_isdigit_def guards int_wrap_def)
  next
    case 2
    let ?ds = "dec_digits v"
    have ne: "?ds \<noteq> []" using 2 by (rule dec_digits_nonempty)
    have val: "decimal_value_from 0 ?ds = v"
      using decimal_value_dec_digits [of v] 2 by (simp add: decimal_value_def)
    have "Parse_int ?ds r0 = Parse_int_loop 1 ?ds 0"
      using ne dec_digits_all_digits by (rule Parse_int_digits)
    moreover have "fst (Parse_int_loop 1 ?ds 0)" "snd (Parse_int_loop 1 ?ds 0) = v"
      using Parse_int_loop_pos [OF dec_digits_all_digits, of 0 v] range by (simp_all add: val)
    ultimately show ?thesis using 2 by (simp add: decimal_text_def prod_eq_iff)
  next
    case 3
    let ?ds = "dec_digits (- v)"
    have ne: "?ds \<noteq> []" using 3 by (intro dec_digits_nonempty) simp
    have val: "decimal_value_from 0 ?ds = - v"
      using decimal_value_dec_digits [of "- v"] 3 by (simp add: decimal_value_def)
    have "Parse_int (CHR ''-'' # ?ds) r0 = Parse_int_loop (- 1) ?ds 0"
      using ne dec_digits_all_digits by (rule Parse_int_minus_digits)
    moreover have "fst (Parse_int_loop (- 1) ?ds 0)" "snd (Parse_int_loop (- 1) ?ds 0) = v"
      using Parse_int_loop_neg [OF dec_digits_all_digits, of 0 "- v"] range by (simp_all add: val)
    ultimately show ?thesis using 3 by (simp add: decimal_text_def prod_eq_iff)
  qed
qed

text \<open>
  The integer encoder never shortens the string it writes into: what lies behind the
  number stays.
\<close>

lemma Encode_int_keeps_tail: "Encode_int 5 ''abc'' = ''5bc''"
  by code_simp


section \<open>The sequence encoder writes the sequence text\<close>

lemma comma_terminated_Cons:
  "comma_terminated (v # vs) = decimal_text v @ '','' @ comma_terminated vs"
  by (simp add: comma_terminated_def)

lemma comma_terminated_eq:
  "vs \<noteq> [] \<Longrightarrow> comma_terminated vs = comma_separated (map decimal_text vs) @ '',''"
  by (induction vs rule: induct_list012) (simp_all add: comma_terminated_def)

lemma totalLen_eq:
  "foldl (\<lambda>t v. t + (IntLen v + 1)) a value = a + length (comma_terminated value)"
  by (induction "value" arbitrary: a) (simp_all add: comma_terminated_def IntLen_decimal_text)

lemma Encode_vector_loop_inplace:
  "pos + length (comma_terminated value) \<le> length out \<Longrightarrow>
   Encode_vector_loop value out pos =
     (take pos out @ comma_terminated value @ drop (pos + length (comma_terminated value)) out,
      pos + length (comma_terminated value))"
proof (induction "value" arbitrary: out pos)
  case Nil
  then show ?case by (simp add: comma_terminated_def)
next
  case (Cons v "value")
  let ?n = "IntLen v"
  let ?rest = "length (comma_terminated value)"
  from Cons.prems have len: "pos + ?n + 1 + ?rest \<le> length out"
    by (simp add: comma_terminated_Cons IntLen_decimal_text)
  then have "pos + ?n \<le> length out" by simp
  then have h: "IntToStrHelper v out pos =
      (take pos out @ decimal_text v @ drop (pos + ?n) out, pos + ?n)"
    by (rule IntToStrHelper_inplace)
  let ?out1 = "take pos out @ decimal_text v @ drop (pos + ?n) out"
  have l1: "length ?out1 = length out" using len by (simp add: IntLen_decimal_text)
  have upd: "?out1[pos + ?n := CHR '',''] =
      take pos out @ decimal_text v @ '','' @ drop (pos + ?n + 1) out"
  proof -
    have "?out1 = (take pos out @ decimal_text v) @ drop (pos + ?n) out" by simp
    moreover have "length (take pos out @ decimal_text v) = pos + ?n"
      using len by (simp add: IntLen_decimal_text)
    moreover have "drop (pos + ?n) out = out ! (pos + ?n) # drop (pos + ?n + 1) out"
      using len by (simp add: Cons_nth_drop_Suc)
    ultimately show ?thesis
      by (metis append.assoc append_Cons append_Nil list_update_length)
  qed
  let ?out2 = "take pos out @ decimal_text v @ '','' @ drop (pos + ?n + 1) out"
  have l2: "length ?out2 = length out" using len by (simp add: IntLen_decimal_text)
  have "Encode_vector_loop (v # value) out pos = Encode_vector_loop value ?out2 (pos + ?n + 1)"
    by (simp add: h upd Let_def)
  also have "\<dots> = (take (pos + ?n + 1) ?out2 @ comma_terminated value @
      drop (pos + ?n + 1 + ?rest) ?out2, pos + ?n + 1 + ?rest)"
    using len l2 by (intro Cons.IH) simp
  also have "take (pos + ?n + 1) ?out2 = take pos out @ decimal_text v @ '',''"
    using len by (simp add: IntLen_decimal_text)
  also have "drop (pos + ?n + 1 + ?rest) ?out2 = drop (pos + ?n + 1 + ?rest) out"
    using len by (simp add: IntLen_decimal_text add.commute add.left_commute)
  finally show ?case
    by (simp add: comma_terminated_Cons IntLen_decimal_text add.assoc)
qed

lemma Encode_vector_eq: "Encode_vector value out0 = sequence_text value"
proof (cases "value = []")
  case True
  then show ?thesis by (simp add: Encode_vector_def sequence_text_def)
next
  case False
  let ?ct = "comma_terminated value"
  let ?cs = "comma_separated (map decimal_text value)"
  let ?total = "1 + length ?ct"
  let ?out = "(resize out0 ?total)[0 := CHR ''['']"
  have total: "foldl (\<lambda>t v. t + (IntLen v + 1)) 2 value - 1 = ?total"
    by (subst totalLen_eq) simp
  have len: "length ?out = ?total" by (simp add: resize_def)
  have ct: "?ct = ?cs @ '',''" using False by (rule comma_terminated_eq)
  have hd: "take 1 ?out = ''[''"
    by (cases "resize out0 ?total") (simp_all add: resize_def)
  have "Encode_vector_loop value ?out 1 =
      (take 1 ?out @ ?ct @ drop (1 + length ?ct) ?out, 1 + length ?ct)"
    using len by (intro Encode_vector_loop_inplace) simp
  then have loop: "Encode_vector_loop value ?out 1 = (''['' @ ?cs @ '','', ?total)"
    using len hd ct by simp
  have "(''['' @ ?cs @ '','')[?total - 1 := CHR '']''] = ''['' @ ?cs @ '']''"
  proof -
    have "?total - 1 = length (''['' @ ?cs)" using ct by simp
    then show ?thesis by (metis append.assoc append_Cons append_Nil list_update_length)
  qed
  then show ?thesis
    using False unfolding Encode_vector_def Let_def total loop sequence_text_def by simp
qed

section \<open>The sequence parser on a sequence text\<close>

lemma dec_digits_chars: "c \<in> set (dec_digits n) \<Longrightarrow> tf_isdigit c"
  using dec_digits_all_digits [of n] by (simp add: list_all_iff)

lemma decimal_text_chars:
  "c \<in> set (decimal_text v) \<Longrightarrow> tf_isdigit c \<or> c = CHR ''-''"
  by (auto simp: decimal_text_def tf_isdigit_def dest: dec_digits_chars split: if_splits)

lemma decimal_text_nonempty: "decimal_text v \<noteq> []"
  using dec_digits_nonempty [of "\<bar>v\<bar>"] by (auto simp: decimal_text_def)

lemma decimal_text_no_comma: "CHR '','' \<notin> set (decimal_text v)"
  using decimal_text_chars [of "CHR '',''" v] by (auto simp: tf_isdigit_def)

lemma comma_separated_chars:
  "c \<in> set (comma_separated (map decimal_text vs)) \<Longrightarrow>
   tf_isdigit c \<or> c = CHR ''-'' \<or> c = CHR '',''"
  by (induction vs rule: induct_list012) (auto dest: decimal_text_chars)

lemma comma_separated_not_ws:
  "c \<in> set (comma_separated (map decimal_text vs)) \<Longrightarrow> \<not> is_ws c"
  by (drule comma_separated_chars) (auto simp: is_ws_def tf_isspace_def tf_isdigit_def)

lemma comma_separated_nonempty: "vs \<noteq> [] \<Longrightarrow> comma_separated (map decimal_text vs) \<noteq> []"
  by (induction vs rule: induct_list012) (simp_all add: decimal_text_nonempty)

lemma find_char_absent: "d \<notin> set view \<Longrightarrow> find_char view d = None"
  by (induction view) auto

lemma find_char_first: "d \<notin> set a \<Longrightarrow> find_char (a @ d # b) d = Some (length a)"
  by (induction a) auto

lemma Split_comma_separated:
  "Split (CHR '','') (comma_separated (map decimal_text (w # ws))) =
     (True, comma_separated (map decimal_text ws), decimal_text w)"
proof (cases ws)
  case Nil
  then show ?thesis
    by (simp add: Split_def decimal_text_nonempty find_char_absent decimal_text_no_comma)
next
  case (Cons u us)
  have "find_char (decimal_text w @ CHR '','' # comma_separated (map decimal_text (u # us)))
      (CHR '','') = Some (length (decimal_text w))"
    by (intro find_char_first decimal_text_no_comma)
  then show ?thesis using Cons by (simp add: Split_def decimal_text_nonempty)
qed

lemma Parse_vector_loop_sequence:
  "list_all is_int32 (v # vs) \<Longrightarrow>
   Parse_vector_loop (comma_separated (map decimal_text vs)) (decimal_text v) acc =
     (True, acc @ v # vs)"
proof (induction vs arbitrary: v acc)
  case Nil
  then have "Parse_int (decimal_text v) 0 = (True, v)" by (simp add: Parse_int_decimal_text)
  then show ?case
    by (subst Parse_vector_loop.simps)
       (simp add: IsEmpty_def decimal_text_nonempty Split_def)
next
  case (Cons w ws)
  then have p: "Parse_int (decimal_text v) 0 = (True, v)" by (simp add: Parse_int_decimal_text)
  have "Parse_vector_loop (comma_separated (map decimal_text (w # ws))) (decimal_text v) acc =
      Parse_vector_loop (comma_separated (map decimal_text ws)) (decimal_text w) (acc @ [v])"
    by (subst Parse_vector_loop.simps)
       (simp add: IsEmpty_def decimal_text_nonempty p Let_def
          Split_comma_separated [of w ws, simplified])
  also have "\<dots> = (True, (acc @ [v]) @ w # ws)"
    using Cons.prems by (intro Cons.IH) simp
  finally show ?case by simp
qed

lemma bracket_not_ws: "\<not> is_ws (CHR ''['')" "\<not> is_ws (CHR '']'')"
  by (simp_all add: is_ws_def tf_isspace_def)

lemma Parse_vector_sequence_text:
  assumes "list_all is_int32 vs"
  shows "Parse_vector (sequence_text vs) r0 = (True, vs)"
proof -
  let ?cs = "comma_separated (map decimal_text vs)"
  have trim: "Trim (sequence_text vs) = sequence_text vs"
    by (intro Trim_id) (simp_all add: sequence_text_def bracket_not_ws)
  have left: "ReadLeft (sequence_text vs) = (CHR ''['', ?cs @ '']'')"
    by (simp add: ReadLeft_def sequence_text_def)
  have right: "ReadRight (?cs @ '']'') = (CHR '']'', ?cs)"
    by (simp add: ReadRight_def butlast_append)
  show ?thesis
  proof (cases vs)
    case Nil
    have "Trim [] = []" by (simp add: Trim_def TrimRight.simps)
    with Nil show ?thesis
      using trim left right by (simp add: Parse_vector_def IsEmpty_def sequence_text_def)
  next
    case (Cons w ws)
    have ne: "?cs \<noteq> []" using Cons by (intro comma_separated_nonempty) simp
    then have "hd ?cs \<in> set ?cs" "last ?cs \<in> set ?cs" by simp_all
    then have "\<not> is_ws (hd ?cs)" "\<not> is_ws (last ?cs)" by (auto dest: comma_separated_not_ws)
    with ne have trim2: "Trim ?cs = ?cs" by (intro Trim_id)
    have split: "Split (CHR '','') ?cs = (True, comma_separated (map decimal_text ws), decimal_text w)"
      unfolding Cons by (rule Split_comma_separated)
    have loop: "Parse_vector_loop (comma_separated (map decimal_text ws)) (decimal_text w) [] =
        (True, [] @ w # ws)"
      using assms Cons by (intro Parse_vector_loop_sequence) simp
    have seq_ne: "sequence_text vs \<noteq> []" by (simp add: sequence_text_def)
    show ?thesis
      unfolding Parse_vector_def Let_def trim left right fst_conv snd_conv trim2 split IsEmpty_def
      using ne seq_ne loop Cons by simp
  qed
qed


section \<open>Steps of the line parser\<close>

lemma Match_loop_fold:
  "length pat = length view \<Longrightarrow>
   Match_loop pat view = (map tf_tolower pat = map tf_tolower view)"
  by (induction pat view rule: list_induct2) auto

lemma Match_fold:
  "Match view pat False = (StringToLowerCase pat = StringToLowerCase view)"
proof (cases "length pat = length view")
  case True
  then show ?thesis by (simp add: Match_def Match_loop_fold StringToLowerCase_def)
next
  case False
  then have "map tf_tolower pat \<noteq> map tf_tolower view" by (metis length_map)
  with False show ?thesis by (simp add: Match_def StringToLowerCase_def)
qed

lemma fold_data_marker: "StringToLowerCase ''data:'' = ''data:''"
  by code_simp

lemma Match_data_marker: "Match view ''data:'' False = (StringToLowerCase view = ''data:'')"
  by (auto simp: Match_fold fold_data_marker)

lemma data_marker_first:
  assumes "StringToLowerCase view = ''data:''"
  shows "view \<noteq> []" and "hd view \<noteq> CHR ''#''" and "hd view \<noteq> CHR ''-''"
proof -
  from assms obtain c cs where v: "view = c # cs" and c: "tf_tolower c = CHR ''d''"
    by (cases view) (auto simp: StringToLowerCase_def)
  show "view \<noteq> []" using v by simp
  have "tf_tolower (CHR ''#'') = CHR ''#''" "tf_tolower (CHR ''-'') = CHR ''-''" by code_simp+
  with c show "hd view \<noteq> CHR ''#''" "hd view \<noteq> CHR ''-''" using v by auto
qed

lemma CheckCondition_True: "CheckCondition p True error = Returns p"
  by (simp add: CheckCondition_def)

lemma CheckCondition_False: "CheckCondition p False error = parse_failure p error"
  by (simp add: CheckCondition_def parse_failure_def ParseError_def)

lemma after_failure:
  "(case parse_failure p error of
      Returns q \<Rightarrow> if \<not> IsOK q then Returns q else f q
    | Throws e q \<Rightarrow> Throws e q
    | Aborts \<Rightarrow> Aborts) = parse_failure p error"
  by (simp add: parse_failure_def IsOK_def)

lemma Split_first:
  "t \<noteq> [] \<Longrightarrow>
   Split d t = (True, drop 1 (dropWhile (\<lambda>c. c \<noteq> d) t), takeWhile (\<lambda>c. c \<noteq> d) t)"
proof -
  have "(case find_char t d of
           None \<Rightarrow> (True, [], t)
         | Some pos \<Rightarrow> (True, drop (pos + 1) t, take pos t)) =
        (True, drop 1 (dropWhile (\<lambda>c. c \<noteq> d) t), takeWhile (\<lambda>c. c \<noteq> d) t)"
  proof (induction t)
    case Nil
    show ?case by simp
  next
    case (Cons c cs)
    then show ?case by (cases "find_char cs d") (auto split: option.splits)
  qed
  then show "t \<noteq> [] \<Longrightarrow> ?thesis" by (simp add: Split_def)
qed

lemma key_value_empty:
  assumes "t \<noteq> []" and "line_key t = [] \<or> line_value t = []"
  shows "ParseLine_key_value p t = parse_failure p ''Key or value is empty.''"
  using assms
  by (auto simp: ParseLine_key_value_def Split_first IsEmpty_def line_key_def line_value_def
      CheckCondition_False after_failure Let_def)


lemma key_value_no_row:
  assumes "t \<noteq> []" and "line_key t \<noteq> []" and "line_value t \<noteq> []"
    and "isOK p" and "\<not> isHeaderSection p" and "pTable p = Some table" and "RowCount table = 0"
  shows "ParseLine_key_value p t = parse_failure p ''Data section has no active row.''"
  using assms
  by (simp add: ParseLine_key_value_def Split_first IsEmpty_def line_key_def line_value_def
      CheckCondition_True CheckCondition_False after_failure Let_def IsOK_def)

lemma ParseLine_entry:
  assumes "pTable p \<noteq> None" and "isOK p" and "entry_line (Trim s)" and "hd (Trim s) \<noteq> CHR ''-''"
  shows "ParseLine p s = ParseLine_key_value p (Trim s)"
  using assms
  by (simp add: ParseLine_def CheckCondition_True IsOK_def IsEmpty_def FirstChar_def
      Match_data_marker entry_line_def)

lemma dash_not_marker:
  assumes "t \<noteq> []" and "hd t = CHR ''-''"
  shows "hd t \<noteq> CHR ''#''" and "StringToLowerCase t \<noteq> ''data:''"
  using assms data_marker_first(3) [of t] by auto

lemma ParseLine_dash_header:
  assumes "pTable p \<noteq> None" and "isOK p" and "Trim s \<noteq> []" and "hd (Trim s) = CHR ''-''"
    and "isHeaderSection p"
  shows "ParseLine p s = parse_failure p ''Invalid entry in the header section.''"
  using assms dash_not_marker [OF assms(3, 4)]
  by (simp add: ParseLine_def CheckCondition_True CheckCondition_False IsOK_def IsEmpty_def
      FirstChar_def Match_data_marker after_failure)

lemma ParseLine_dash_data:
  assumes "pTable p = Some table" and "isOK p" and "Trim s \<noteq> []" and "hd (Trim s) = CHR ''-''"
    and "\<not> isHeaderSection p" and "NewRow table = Some (True, table')"
    and "Trim (RemovePrefix 1 (Trim s)) \<noteq> []"
  shows "ParseLine p s =
         ParseLine_key_value (p\<lparr>pTable := Some table'\<rparr>) (Trim (RemovePrefix 1 (Trim s)))"
  using assms dash_not_marker [OF assms(3, 4)]
  by (simp add: ParseLine_def CheckCondition_True IsOK_def IsEmpty_def
      FirstChar_def Match_data_marker)


section \<open>Every parser trims first\<close>

text \<open>
  Claim C10. \<^verbatim>\<open>Trim\<close> removes the white space, carriage returns included, at both
  ends of the text, and each of the four \<^verbatim>\<open>Parse\<close> overloads returns on a text what
  it returns on the trimmed text, for every old value of the variable written to. In
  particular the text " 42 " parses to 42.
\<close>

theorem Parse_trims_first:
  "Trim text = rev (dropWhile is_ws (rev (dropWhile is_ws text))) \<and>
   Parse_int text ri = Parse_int (Trim text) ri \<and>
   Parse_bool text rb = Parse_bool (Trim text) rb \<and>
   Parse_string text rs = Parse_string (Trim text) rs \<and>
   Parse_vector text rv = Parse_vector (Trim text) rv \<and>
   Parse_int '' 42 '' ri = (True, 42)"
proof -
  have *: "Parse_int ''42'' ri = (True, 42)"
    by (simp add: Parse_int_digits tf_isdigit_def guards int_wrap_def)
  have "Trim '' 42 '' = ''42''"
    by (simp add: Trim_dropWhile is_ws_def tf_isspace_def)
  moreover have "Trim ''42'' = ''42''"
    by (simp add: Trim_dropWhile is_ws_def tf_isspace_def)
  ultimately have "Parse_int '' 42 '' ri = Parse_int ''42'' ri"
    by (simp add: Parse_int_def)
  with * show ?thesis
  by (simp add: Trim_dropWhile [symmetric] Parse_int_def Parse_bool_def Parse_string_def
      Parse_vector_def Trim_Trim)
qed

theorem Parse_trims_first_witness:
  "Parse_int [CHR 0x0D, CHR '' '', CHR ''4'', CHR ''2'', CHR 0x09, CHR 0x0D, CHR 0x0A] 0 = (True, 42) \<and>
   Parse_bool '' yes '' False = (True, True) \<and>
   Parse_string [CHR '' '', CHR 0x22, CHR ''a'', CHR 0x22, CHR 0x0D] [] = (True, ''a'') \<and>
   Parse_vector '' [7] '' [] = (True, [7])"
proof -
  let ?t = "[CHR 0x0D, CHR '' '', CHR ''4'', CHR ''2'', CHR 0x09, CHR 0x0D, CHR 0x0A]"
  have t1: "Trim ?t = ''42''" by (simp add: Trim_dropWhile is_ws_def tf_isspace_def)
  have t2: "Trim '' yes '' = ''yes''" by (simp add: Trim_dropWhile is_ws_def tf_isspace_def)
  have t3: "Trim [CHR '' '', CHR 0x22, CHR ''a'', CHR 0x22, CHR 0x0D] = [CHR 0x22, CHR ''a'', CHR 0x22]"
    by (simp add: Trim_dropWhile is_ws_def tf_isspace_def)
  have t4: "Trim '' [7] '' = ''[7]''" by (simp add: Trim_dropWhile is_ws_def tf_isspace_def)
  have p1: "Parse_int ''42'' 0 = (True, 42)"
    by (simp add: Parse_int_digits tf_isdigit_def guards int_wrap_def)
  have p2: "Parse_bool ''yes'' False = (True, True)" by code_simp
  have p3: "Parse_string [CHR 0x22, CHR ''a'', CHR 0x22] [] = (True, ''a'')" by code_simp
  have p4: "Parse_vector ''[7]'' [] = (True, [7])" by code_simp
  show ?thesis
    using Parse_trims_first [of ?t 0 False "[]" "[]"]
      Parse_trims_first [of "'' yes ''" 0 False "[]" "[]"]
      Parse_trims_first [of "[CHR '' '', CHR 0x22, CHR ''a'', CHR 0x22, CHR 0x0D]" 0 False "[]" "[]"]
      Parse_trims_first [of "'' [7] ''" 0 False "[]" "[]"]
    unfolding t1 t2 t3 t4 p1 p2 p3 p4 by simp
qed


section \<open>Integer round trip\<close>

text \<open>
  Into a new, empty string, and into any string that is not longer than the text written,
  the integer encoder writes the decimal text of the number, and the parser returns the
  number for it.
\<close>

lemma Parse_Encode_int_fresh:
  assumes "is_int32 v"
  shows "Parse_int (Encode_int v []) r0 = (True, v) \<and>
         Encode_int v [] = decimal_text v \<and>
         (length out \<le> IntLen v \<longrightarrow> Parse_int (Encode_int v out) r0 = (True, v))"
  using assms by (simp add: Encode_int_eq Parse_int_decimal_text)

text \<open>
  Claim C3. Every 32-bit integer is to be parsed back from its encoding. \<^verbatim>\<open>Encode\<close> for
  an integer writes into the string it is given and never shortens it, so what a longer
  string held behind the number stays in the encoding: 0 written into the string 99 gives
  the text 09, which parses to 9, and 5 written into the string abc gives the text 5bc,
  which does not parse. The encoders for a boolean, a string and a sequence replace what
  the string held.
\<close>

theorem Encode_int_stale_output:
  "Encode_int 0 ''99'' = ''09'' \<and>
   Parse_int (Encode_int 0 ''99'') 0 = (True, 9) \<and>
   Encode_int 5 ''abc'' = ''5bc'' \<and>
   Parse_int (Encode_int 5 ''abc'') 0 = (False, 5) \<and>
   Encode_bool True ''abc'' = ''yes'' \<and>
   Encode_string ''s'' ''abcdef'' = [CHR 0x22, CHR ''s'', CHR 0x22] \<and>
   Encode_vector [5] ''abcdef'' = ''[5]''"
  by code_simp

theorem Encode_int_stale_output_witness:
  "Parse_int (Encode_int 0 ''99'') 0 = (True, 9) \<and>
   Parse_int (Encode_int 5 ''abc'') 0 = (False, 5)"
  using Encode_int_stale_output by blast


section \<open>Integer sequence round trip\<close>

text \<open>
  Claim C4. Every finite sequence of 32-bit integers, the empty one included, is parsed
  back from its encoding, with the same elements in the same order; the encoding is the
  bracketed, comma-separated text, whatever the string written into held before, and the
  empty sequence is encoded as the two characters of "[]".
\<close>

theorem Parse_Encode_vector_roundtrip:
  assumes "list_all is_int32 seq"
  shows "Parse_vector (Encode_vector seq out) r0 = (True, seq) \<and>
         Encode_vector seq out = sequence_text seq \<and>
         Encode_vector [] out = ''[]''"
  using assms by (simp add: Encode_vector_eq Parse_vector_sequence_text) (simp add: sequence_text_def)

theorem Parse_Encode_vector_roundtrip_witness:
  "list_all is_int32 [3, - 2147483648, 0, 3, 2147483647] \<and>
   Parse_vector (Encode_vector [3, - 2147483648, 0, 3, 2147483647] ''stale text'') [9] =
     (True, [3, - 2147483648, 0, 3, 2147483647]) \<and>
   list_all is_int32 [] \<and> Parse_vector (Encode_vector [] ''x'') [9] = (True, [])"
proof -
  have h: "list_all is_int32 [3, - 2147483648, 0, 3, 2147483647]" "list_all is_int32 []"
    by (simp_all add: is_int32_def INT_MIN_def INT_MAX_def)
  show ?thesis
    using h Parse_Encode_vector_roundtrip [OF h(1), THEN conjunct1, of "''stale text''" "[9]"]
      Parse_Encode_vector_roundtrip [OF h(2), THEN conjunct1, of "''x''" "[9]"]
    by simp
qed


section \<open>Empty elements of a sequence text\<close>

text \<open>
  Claim C5. The sequence parser is to fail on a text with a malformed element, an empty
  one included. The loop of the parser runs while the current token is not empty, so an
  empty token ends it like the end of the text does: the parser reports success with the
  elements read so far. The texts "[,1]", "[1,]" and "[1,,2]" are accepted as the sequences
  \<open>[]\<close>, \<open>[1]\<close> and \<open>[1]\<close>; an element of white space only or of other characters is
  rejected.
\<close>

theorem Parse_vector_empty_element:
  "Parse_vector ''[,1]'' [] = (True, []) \<and>
   Parse_vector ''[1,]'' [] = (True, [1]) \<and>
   Parse_vector ''[1,,2]'' [] = (True, [1]) \<and>
   Parse_vector ''[1, ,2]'' [] = (False, [1]) \<and>
   Parse_vector ''[1,x,2]'' [] = (False, [1])"
  by code_simp

theorem Parse_vector_empty_element_witness:
  "fst (Parse_vector ''[,1]'' []) \<and> snd (Parse_vector ''[,1]'' []) = [] \<and>
   fst (Parse_vector ''[1,,2]'' []) \<and> snd (Parse_vector ''[1,,2]'' []) = [1]"
  using Parse_vector_empty_element by simp


section \<open>A failed FromString and the record\<close>

lemma Parse_bool_failure: "\<not> fst (Parse_bool s b) \<Longrightarrow> snd (Parse_bool s b) = b"
  by (simp add: Parse_bool_def Let_def split: if_splits)

lemma Parse_string_failure: "\<not> fst (Parse_string s r) \<Longrightarrow> snd (Parse_string s r) = r"
  by (auto simp: Parse_string_def Let_def split: if_splits)

text \<open>
  Claim C1 says that a failed \<^verbatim>\<open>FromString\<close> leaves the whole record as it was. The
  integer parser sets its result to 0 before it reads and accumulates into it, and the
  sequence parser clears its result first: on the record of the example, whose integer
  members are 5, the text "12x" fails and leaves 12 in the bound member, and the text "[3,x]"
  fails and leaves the one-element sequence 3 where 7, 8 was.
\<close>

theorem FromString_failure_counterexample:
  "\<not> fst (FromString (IntField 0 (- 1)) example_record ''12x'') \<and>
   int_members example_record 0 = 5 \<and>
   int_members (snd (FromString (IntField 0 (- 1)) example_record ''12x'')) 0 = 12 \<and>
   snd (FromString (IntField 0 (- 1)) example_record ''12x'') \<noteq> example_record \<and>
   \<not> fst (FromString (VectorField 0 []) example_record ''[3,x]'') \<and>
   vector_members example_record 0 = [7, 8] \<and>
   vector_members (snd (FromString (VectorField 0 []) example_record ''[3,x]'')) 0 = [3]"
proof -
  have p: "Parse_int ''12x'' 5 = (False, 12)" by code_simp
  have q: "Parse_vector ''[3,x]'' [7, 8] = (False, [3])" by code_simp
  have m: "int_members example_record 0 = 5" "vector_members example_record 0 = [7, 8]"
    by (simp_all add: example_record_def)
  have "int_members (snd (FromString (IntField 0 (- 1)) example_record ''12x'')) 0 = 12"
    by (simp add: m p)
  moreover from this have "snd (FromString (IntField 0 (- 1)) example_record ''12x'') \<noteq> example_record"
    using m by auto
  ultimately show ?thesis by (simp add: m p q)
qed

text \<open>
  Claim C1 as amended. When \<^verbatim>\<open>FromString\<close> returns false, every member of the record
  other than the bound one holds what it held before the call, and when the bound member
  is a boolean or a string the whole record is as before.
\<close>

theorem FromString_failure_frame:
  assumes "\<not> fst (FromString fa var s)"
  shows "(\<forall>m. m \<noteq> field_pointer fa \<longrightarrow> member (snd (FromString fa var s)) m = member var m) \<and>
         (\<not> resets_before_parsing fa \<longrightarrow> snd (FromString fa var s) = var)"
proof (intro conjI allI impI)
  fix m assume "m \<noteq> field_pointer fa"
  then show "member (snd (FromString fa var s)) m = member var m"
    by (cases fa; cases m) (auto simp: Let_def)
next
  assume "\<not> resets_before_parsing fa"
  with assms show "snd (FromString fa var s) = var"
    by (cases fa) (simp_all add: Let_def Parse_bool_failure Parse_string_failure)
qed

theorem FromString_failure_frame_witness:
  "\<not> fst (FromString (StringField 1 []) example_record ''no quotes'') \<and>
   snd (FromString (StringField 1 []) example_record ''no quotes'') = example_record \<and>
   \<not> fst (FromString (IntField 0 (- 1)) example_record ''12x'') \<and>
   member (snd (FromString (IntField 0 (- 1)) example_record ''12x'')) (IntMember 1) = IntValue 5"
proof -
  have p: "Parse_int ''12x'' 5 = (False, 12)" by code_simp
  have q: "Parse_string ''no quotes'' ''old'' = (False, ''old'')" by code_simp
  have m: "int_members example_record i = 5" "string_members example_record i = ''old''" for i
    by (simp_all add: example_record_def)
  have f1: "\<not> fst (FromString (StringField 1 []) example_record ''no quotes'')"
    by (simp add: m q)
  have f2: "\<not> fst (FromString (IntField 0 (- 1)) example_record ''12x'')"
    by (simp add: m p)
  have v: "member example_record (IntMember 1) = IntValue 5" by (simp add: m)
  have a: "snd (FromString (StringField 1 []) example_record ''no quotes'') = example_record"
    using FromString_failure_frame [OF f1] by (simp del: FromString.simps)
  have b: "member (snd (FromString (IntField 0 (- 1)) example_record ''12x'')) (IntMember 1) =
      member example_record (IntMember 1)"
    using FromString_failure_frame [OF f2, THEN conjunct1, rule_format, of "IntMember 1"]
    by (simp del: FromString.simps member.simps)
  show ?thesis using f1 f2 a b v by (simp del: FromString.simps member.simps)
qed


section \<open>Column names that differ by case only\<close>

text \<open>
  Claim C8. Of two registrations under names that are equal after folding to lower case,
  the second returns false and leaves the table adapter, its column list and its name
  index, as the first registration left it. The first registration succeeds when no column
  is registered under the folded name yet, as on a table adapter without columns, and only
  then; it appends the column and indexes it under the folded name.
\<close>

theorem AddNamedColumn_case_collision:
  assumes "StringToLowerCase n1 = StringToLowerCase n2"
  shows "\<not> fst (AddNamedColumn (snd (AddNamedColumn t (Some n1) f1)) (Some n2) f2) \<and>
         snd (AddNamedColumn (snd (AddNamedColumn t (Some n1) f1)) (Some n2) f2) =
           snd (AddNamedColumn t (Some n1) f1) \<and>
         fst (AddNamedColumn t (Some n1) f1) = (name2id t (StringToLowerCase n1) = None) \<and>
         (name2id t (StringToLowerCase n1) = None \<longrightarrow>
            columnSpecs (snd (AddNamedColumn t (Some n1) f1)) =
              columnSpecs t @ [\<lparr>name = n1, fieldAdapter = f1\<rparr>] \<and>
            name2id (snd (AddNamedColumn t (Some n1) f1)) =
              (name2id t)(StringToLowerCase n1 \<mapsto> length (columnSpecs t)))"
  using assms by (auto simp: AddNamedColumn_def Let_def)

theorem AddNamedColumn_case_collision_witness:
  "StringToLowerCase ''Problem'' = StringToLowerCase ''PROBLEM'' \<and>
   fst (AddNamedColumn \<lparr>name2id = Map.empty, columnSpecs = [], data = VectorRef example_record []\<rparr>
          (Some ''Problem'') (IntField 0 (- 1))) \<and>
   \<not> fst (AddNamedColumn
          (snd (AddNamedColumn \<lparr>name2id = Map.empty, columnSpecs = [], data = VectorRef example_record []\<rparr>
             (Some ''Problem'') (IntField 0 (- 1))))
          (Some ''PROBLEM'') (IntField 1 (- 1)))"
proof -
  have h: "StringToLowerCase ''Problem'' = StringToLowerCase ''PROBLEM''"
    by code_simp
  show ?thesis
    using h AddNamedColumn_case_collision [OF h,
        of "\<lparr>name2id = Map.empty, columnSpecs = [], data = VectorRef example_record []\<rparr>"
           "IntField 0 (- 1)" "IntField 1 (- 1)"]
    by simp
qed


section \<open>The marker of the data section\<close>

text \<open>
  Claim C9. The marker is matched without regard to case: every line that, trimmed and
  folded to lower case, is \<open>data:\<close> makes a parser that has a table and is not in the
  failed state leave the header section, and changes nothing else.
\<close>

theorem data_marker_case_insensitive:
  assumes "pTable p \<noteq> None" and "isOK p" and "StringToLowerCase (Trim s) = ''data:''"
  shows "ParseLine p s = Returns (p\<lparr>isHeaderSection := False\<rparr>)"
  using assms data_marker_first [OF assms(3)]
  by (simp add: ParseLine_def CheckCondition_True IsOK_def IsEmpty_def FirstChar_def
      Match_data_marker)

theorem data_marker_case_insensitive_witness:
  "pTable example_parser \<noteq> None \<and> isOK example_parser \<and>
   StringToLowerCase (Trim '' DATA: '') = ''data:'' \<and>
   ParseLine example_parser '' DATA: '' = Returns (example_parser\<lparr>isHeaderSection := False\<rparr>) \<and>
   StringToLowerCase (Trim ''Data:'') = ''data:'' \<and>
   ParseLine example_parser ''Data:'' = Returns (example_parser\<lparr>isHeaderSection := False\<rparr>)"
proof -
  have h: "pTable example_parser \<noteq> None" "isOK example_parser"
    by (simp_all add: example_parser_def)
  have m1: "StringToLowerCase (Trim '' DATA: '') = ''data:''" by code_simp
  have m2: "StringToLowerCase (Trim ''Data:'') = ''data:''" by code_simp
  show ?thesis
    using h m1 m2 data_marker_case_insensitive [OF h m1] data_marker_case_insensitive [OF h m2]
    by simp
qed


section \<open>Structural violations\<close>

text \<open>
  Claim C7 says that a line that is a structural violation is reported as a failure and
  is not applied to any table. A line that starts with \<open>-\<close> in the data section appends
  its row before the rest of the line is looked at: the line "- foo" is reported as a
  failure, and the data table of the example, which had no row, has one afterwards.
\<close>

theorem structural_violation_counterexample:
  "(case ParseLine (example_parser\<lparr>isHeaderSection := False\<rparr>) ''- foo'' of
      Returns q \<Rightarrow> \<not> isOK q \<and> map_option RowCount (pTable q) = Some 1
    | Throws e q \<Rightarrow> False
    | Aborts \<Rightarrow> False) \<and>
   map_option RowCount (pTable (example_parser\<lparr>isHeaderSection := False\<rparr>)) = Some 0"
  by code_simp

text \<open>
  Claim C7 as amended. For a parser with a table that is not in the failed state, each of
  these lines is reported as a failure: the parse is marked as failed, a \<^verbatim>\<open>ParseError\<close>
  is thrown in strict mode, and no value is set in any table.
  \<^item> A line that starts with \<open>-\<close> in the header section; the tables are as before.
  \<^item> An entry that does not start with \<open>-\<close> and whose key or value is empty; the tables
    are as before.
  \<^item> An entry that does not start with \<open>-\<close>, with a key and a value, in the data section
    while the table has no row; the tables are as before.
  \<^item> A line that starts with \<open>-\<close> in the data section and goes on with an entry whose key
    or value is empty; the header is as before, and the data table has the new row that
    \<^verbatim>\<open>NewRow\<close> appended before the entry was read.
\<close>

theorem structural_violation_fails:
  assumes "pTable p = Some table" and "isOK p"
  shows "(Trim s \<noteq> [] \<and> hd (Trim s) = CHR ''-'' \<and> isHeaderSection p \<longrightarrow>
            ParseLine p s = parse_failure p ''Invalid entry in the header section.'') \<and>
         (entry_line (Trim s) \<and> hd (Trim s) \<noteq> CHR ''-'' \<and>
          (line_key (Trim s) = [] \<or> line_value (Trim s) = []) \<longrightarrow>
            ParseLine p s = parse_failure p ''Key or value is empty.'') \<and>
         (entry_line (Trim s) \<and> hd (Trim s) \<noteq> CHR ''-'' \<and>
          line_key (Trim s) \<noteq> [] \<and> line_value (Trim s) \<noteq> [] \<and>
          \<not> isHeaderSection p \<and> RowCount table = 0 \<longrightarrow>
            ParseLine p s = parse_failure p ''Data section has no active row.'') \<and>
         (Trim s \<noteq> [] \<and> hd (Trim s) = CHR ''-'' \<and> \<not> isHeaderSection p \<and>
          NewRow table = Some (True, table') \<and> Trim (RemovePrefix 1 (Trim s)) \<noteq> [] \<and>
          (line_key (Trim (RemovePrefix 1 (Trim s))) = [] \<or>
           line_value (Trim (RemovePrefix 1 (Trim s))) = []) \<longrightarrow>
            ParseLine p s = parse_failure (p\<lparr>pTable := Some table'\<rparr>) ''Key or value is empty.'')"
proof (intro conjI impI)
  assume "Trim s \<noteq> [] \<and> hd (Trim s) = CHR ''-'' \<and> isHeaderSection p"
  with assms show "ParseLine p s = parse_failure p ''Invalid entry in the header section.''"
    by (intro ParseLine_dash_header) simp_all
next
  assume a: "entry_line (Trim s) \<and> hd (Trim s) \<noteq> CHR ''-'' \<and>
    (line_key (Trim s) = [] \<or> line_value (Trim s) = [])"
  with assms have "ParseLine p s = ParseLine_key_value p (Trim s)"
    by (intro ParseLine_entry) simp_all
  also have "\<dots> = parse_failure p ''Key or value is empty.''"
    using a by (intro key_value_empty) (simp_all add: entry_line_def)
  finally show "ParseLine p s = parse_failure p ''Key or value is empty.''" .
next
  assume a: "entry_line (Trim s) \<and> hd (Trim s) \<noteq> CHR ''-'' \<and>
    line_key (Trim s) \<noteq> [] \<and> line_value (Trim s) \<noteq> [] \<and>
    \<not> isHeaderSection p \<and> RowCount table = 0"
  with assms have "ParseLine p s = ParseLine_key_value p (Trim s)"
    by (intro ParseLine_entry) simp_all
  also have "\<dots> = parse_failure p ''Data section has no active row.''"
    using a assms by (intro key_value_no_row [where table = table]) (simp_all add: entry_line_def)
  finally show "ParseLine p s = parse_failure p ''Data section has no active row.''" .
next
  assume a: "Trim s \<noteq> [] \<and> hd (Trim s) = CHR ''-'' \<and> \<not> isHeaderSection p \<and>
    NewRow table = Some (True, table') \<and> Trim (RemovePrefix 1 (Trim s)) \<noteq> [] \<and>
    (line_key (Trim (RemovePrefix 1 (Trim s))) = [] \<or>
     line_value (Trim (RemovePrefix 1 (Trim s))) = [])"
  with assms have "ParseLine p s =
      ParseLine_key_value (p\<lparr>pTable := Some table'\<rparr>) (Trim (RemovePrefix 1 (Trim s)))"
    by (intro ParseLine_dash_data [where table = table]) simp_all
  also have "\<dots> = parse_failure (p\<lparr>pTable := Some table'\<rparr>) ''Key or value is empty.''"
    using a by (intro key_value_empty) simp_all
  finally show "ParseLine p s =
      parse_failure (p\<lparr>pTable := Some table'\<rparr>) ''Key or value is empty.''" .
qed

theorem structural_violation_fails_witness:
  "pTable example_parser = Some example_table \<and> isOK example_parser \<and>
   isHeaderSection example_parser \<and> hd (Trim ''- problem: 1'') = CHR ''-'' \<and>
   ParseLine example_parser ''- problem: 1'' =
     parse_failure example_parser ''Invalid entry in the header section.'' \<and>
   entry_line (Trim ''problems'') \<and> line_value (Trim ''problems'') = [] \<and>
   ParseLine example_parser ''problems'' = parse_failure example_parser ''Key or value is empty.'' \<and>
   entry_line (Trim ''problem: 1'') \<and> RowCount example_table = 0 \<and>
   ParseLine (example_parser\<lparr>isHeaderSection := False\<rparr>) ''problem: 1'' =
     parse_failure (example_parser\<lparr>isHeaderSection := False\<rparr>) ''Data section has no active row.'' \<and>
   fst (the (NewRow example_table)) \<and>
   line_value (Trim (RemovePrefix 1 (Trim ''- foo''))) = [] \<and>
   ParseLine (example_parser\<lparr>isHeaderSection := False\<rparr>) ''- foo'' =
     parse_failure (example_parser\<lparr>isHeaderSection := False,
                                   pTable := Some (snd (the (NewRow example_table)))\<rparr>)
       ''Key or value is empty.''"
proof -
  let ?d = "example_parser\<lparr>isHeaderSection := False\<rparr>"
  have h: "pTable example_parser = Some example_table" "isOK example_parser"
    "isHeaderSection example_parser"
    by (simp_all add: example_parser_def)
  have hd: "pTable ?d = Some example_table" "isOK ?d" "\<not> isHeaderSection ?d"
    by (simp_all add: example_parser_def)
  have l1: "Trim ''- problem: 1'' \<noteq> []" "hd (Trim ''- problem: 1'') = CHR ''-''"
    by code_simp+
  have l2: "entry_line (Trim ''problems'')" "hd (Trim ''problems'') \<noteq> CHR ''-''"
    "line_value (Trim ''problems'') = []"
    by code_simp+
  have l3: "entry_line (Trim ''problem: 1'')" "hd (Trim ''problem: 1'') \<noteq> CHR ''-''"
    "line_key (Trim ''problem: 1'') \<noteq> []" "line_value (Trim ''problem: 1'') \<noteq> []"
    by code_simp+
  have r: "RowCount example_table = 0" by (simp add: RowCount_def example_table_def)
  have l4: "Trim ''- foo'' \<noteq> []" "hd (Trim ''- foo'') = CHR ''-''"
    "Trim (RemovePrefix 1 (Trim ''- foo'')) \<noteq> []"
    "line_value (Trim (RemovePrefix 1 (Trim ''- foo''))) = []"
    by code_simp+
  have "NewRow example_table \<noteq> None" "fst (the (NewRow example_table))"
    by (simp_all add: NewRow_def example_table_def SetDefaultValues_def RowCount_def
        GetRecord_def PutRecord_def)
  then have n: "NewRow example_table = Some (True, snd (the (NewRow example_table)))"
    and n': "fst (the (NewRow example_table))"
    by auto
  have c1: "ParseLine example_parser ''- problem: 1'' =
      parse_failure example_parser ''Invalid entry in the header section.''"
    using structural_violation_fails [OF h(1,2), of "''- problem: 1''"] l1 h(3) by blast
  have c2: "ParseLine example_parser ''problems'' =
      parse_failure example_parser ''Key or value is empty.''"
    using structural_violation_fails [OF h(1,2), of "''problems''"] l2 by blast
  have c3: "ParseLine ?d ''problem: 1'' = parse_failure ?d ''Data section has no active row.''"
    using structural_violation_fails [OF hd(1,2), of "''problem: 1''"] l3 hd(3) r by blast
  have c4: "ParseLine ?d ''- foo'' =
      parse_failure (?d\<lparr>pTable := Some (snd (the (NewRow example_table)))\<rparr>)
        ''Key or value is empty.''"
    using structural_violation_fails [OF hd(1,2), of "''- foo''" "snd (the (NewRow example_table))"]
      l4 hd(3) n by blast
  show ?thesis
    using h l1(2) c1 l2(1,3) c2 l3(1) r c3 n' l4(4) c4 by simp
qed


section \<open>Strict and lenient mode\<close>

lemma wf_table_AddNamedColumn:
  "wf_table t \<Longrightarrow> wf_table (snd (AddNamedColumn t nm field))"
  by (auto simp: wf_table_def AddNamedColumn_def Let_def less_Suc_eq)






















lemma Compose_file_line:
  "file0 \<noteq> [] \<Longrightarrow> 0 < line0 \<Longrightarrow>
   Compose msg file0 line0 = file0 @ '':'' @ to_string line0 @ '': '' @ msg"
  by (simp add: Compose_def)



section \<open>The line parser reports the failures of a line\<close>






lemma entry_failure_cong:
  "isHeaderSection p' = isHeaderSection p \<Longrightarrow> pHeader p' = pHeader p \<Longrightarrow>
   pTable p' = pTable p \<Longrightarrow> entry_failure p' e = entry_failure p e"
  by (simp add: entry_failure_def)

lemma line_failure_cong:
  "isHeaderSection p' = isHeaderSection p \<Longrightarrow> pHeader p' = pHeader p \<Longrightarrow>
   pTable p' = pTable p \<Longrightarrow> line_failure p' s = line_failure p s"
  by (auto simp: line_failure_def split: option.splits intro!: entry_failure_cong)

lemma line_failure_mode [simp]:
  "line_failure (p\<lparr>throwOnError := b\<rparr>) s = line_failure p s"
  "line_failure (p\<lparr>lineNumber := n\<rparr>) s = line_failure p s"
  by (rule line_failure_cong; simp)+

section \<open>The loop over the lines\<close>









section \<open>The error policy of ParseFile\<close>




end
